theory Spec2Isabelle
  imports Main "HOL-Library.Multiset" "HOL-Library.Sublist" "HOL-Library.Char_ord"
    "HOL-Library.List_Lexorder"
begin

section \<open>Azure Firewall analyzer: the ordering engine and the rule analyzer\<close>

text \<open>
  A shallow embedding of \<^verbatim>\<open>RuleProcessor\<close> (the ordering engine) and
  \<^verbatim>\<open>RuleAnalyzer\<close> (duplicate and conflict detection) of the TypeScript sources.

  Conventions of the embedding.
  \<^item> A TypeScript interface is a record. Isabelle record fields are global constants, so
    every field carries a prefix naming its interface: \<open>rule_\<close> (FirewallRule),
    \<open>coll_\<close> (RuleCollection), \<open>grp_\<close> (RuleCollectionGroup), \<open>pol_\<close>
    (FirewallPolicy), \<open>pr_\<close> (ProcessedRule), \<open>pc_\<close> (ProcessedRuleCollection),
    \<open>pg_\<close> (ProcessedRuleCollectionGroup), \<open>fp_\<close> (RuleFingerprint),
    \<open>dg_\<close> (DuplicateGroup), \<open>rc_\<close> (RuleConflict), \<open>st_\<close> (statistics).
  \<^item> An optional property (\<^verbatim>\<open>x?: T\<close>, or a property that only some members of
    the rule union have and that the code reads through \<^verbatim>\<open>rule as any\<close>) is an
    \<open>option\<close>; \<open>None\<close> is \<^verbatim>\<open>undefined\<close>.
  \<^item> The discriminant \<^verbatim>\<open>ruleType\<close> is compared with string literals at run time,
    so it is a \<open>string\<close>; the three declared kinds are the strings
    \<open>''NatRule''\<close>, \<open>''NetworkRule''\<close> and \<open>''ApplicationRule''\<close>.
  \<^item> A \<^verbatim>\<open>number\<close> is an \<open>int\<close> (priorities, counters and processing orders are
    integers far below \<open>2^53\<close>, where the arithmetic of the source is exact).
  \<^item> Strings are \<open>char list\<close>s; \<^verbatim>\<open>toLowerCase\<close> and \<^verbatim>\<open>trim\<close> are modelled on
    ASCII text.
  \<^item> A closure variable that a callback increments (\<^verbatim>\<open>currentOrder++\<close>,
    \<^verbatim>\<open>globalProcessingOrder = ...\<close>) is passed into the recursive function that
    stands for the loop and returned from it.
  \<^item> The free-text \<^verbatim>\<open>description\<close> of a duplicate group and of a conflict is
    presentation only and is not modelled; of \<^verbatim>\<open>FirewallPolicy\<close> only the fields the
    engine reads are kept.
\<close>

subsection \<open>The policy model (firewall.types)\<close>

record FirewallRule =
  rule_ruleType :: string
  rule_name :: string
  rule_description :: "string option"
  rule_protocols :: "(string \<times> int) list option"
  rule_fqdnTags :: "string list option"
  rule_webCategories :: "string list option"
  rule_targetFqdns :: "string list option"
  rule_targetUrls :: "string list option"
  rule_terminateTLS :: "bool option"
  rule_httpHeadersToInsert :: "(string \<times> string) list option"
  rule_ipProtocols :: "string list option"
  rule_destinationPorts :: "string list option"
  rule_destinationFqdns :: "string list option"
  rule_translatedAddress :: "string option"
  rule_translatedPort :: "string option"
  rule_sourceAddresses :: "string list option"
  rule_destinationAddresses :: "string list option"
  rule_sourceIpGroups :: "string list option"
  rule_destinationIpGroups :: "string list option"

record RuleCollection =
  coll_ruleCollectionType :: string
  coll_name :: string
  coll_priority :: int
  coll_rules :: "FirewallRule list"
  coll_action :: string

record RuleCollectionGroup =
  grp_name :: string
  grp_priority :: int
  grp_ruleCollections :: "RuleCollection list"

record FirewallPolicy =
  pol_name :: string
  pol_ruleCollectionGroups :: "RuleCollectionGroup list"

datatype RuleCategory = DNAT | Network | Application

record ProcessedRule =
  pr_ruleType :: string
  pr_name :: string
  pr_description :: "string option"
  pr_protocols :: "(string \<times> int) list option"
  pr_fqdnTags :: "string list option"
  pr_webCategories :: "string list option"
  pr_targetFqdns :: "string list option"
  pr_targetUrls :: "string list option"
  pr_terminateTLS :: "bool option"
  pr_httpHeadersToInsert :: "(string \<times> string) list option"
  pr_ipProtocols :: "string list option"
  pr_destinationPorts :: "string list option"
  pr_destinationFqdns :: "string list option"
  pr_translatedAddress :: "string option"
  pr_translatedPort :: "string option"
  pr_sourceAddresses :: "string list option"
  pr_destinationAddresses :: "string list option"
  pr_sourceIpGroups :: "string list option"
  pr_destinationIpGroups :: "string list option"
  pr_id :: string
  pr_collectionName :: string
  pr_collectionGroupName :: string
  pr_processingOrder :: int
  pr_ruleCategory :: RuleCategory
  pr_groupPriority :: int
  pr_collectionPriority :: int
  pr_isParentPolicy :: bool

record ProcessedRuleCollection =
  pc_ruleCollectionType :: string
  pc_name :: string
  pc_priority :: int
  pc_rules :: "FirewallRule list"
  pc_action :: string
  pc_id :: string
  pc_groupName :: string
  pc_groupPriority :: int
  pc_ruleCategory :: RuleCategory
  pc_processedRules :: "ProcessedRule list"

record ProcessedRuleCollectionGroup =
  pg_id :: string
  pg_name :: string
  pg_priority :: int
  pg_ruleCollections :: "RuleCollection list"
  pg_processedCollections :: "ProcessedRuleCollection list"
  pg_isParentPolicy :: bool

subsection \<open>Built-ins of the host language\<close>

text \<open>
  \<^verbatim>\<open>Array.prototype.sort(compare)\<close> is stable. For a comparator that is a consistent
  ordering (the comparators below compare integers) its result is the stable arrangement
  that insertion from the right computes: an element is placed before the first element
  it does not exceed, hence before the equal elements that followed it in the input.
\<close>

fun insertBy :: "('a \<Rightarrow> 'a \<Rightarrow> int) \<Rightarrow> 'a \<Rightarrow> 'a list \<Rightarrow> 'a list" where
  "insertBy cmp x [] = [x]"
| "insertBy cmp x (y # ys) = (if cmp x y \<le> 0 then x # y # ys else y # insertBy cmp x ys)"

definition sortBy :: "('a \<Rightarrow> 'a \<Rightarrow> int) \<Rightarrow> 'a list \<Rightarrow> 'a list" where
  "sortBy cmp xs = foldr (insertBy cmp) xs []"

text \<open>Decimal rendering of an array index or counter inside a template string.\<close>

definition digitChar :: "nat \<Rightarrow> char" where
  "digitChar d = char_of (48 + d)"

function showNat :: "nat \<Rightarrow> string" where
  "showNat n = (if n < 10 then [digitChar n] else showNat (n div 10) @ [digitChar (n mod 10)])"
  by pat_completeness auto
termination
  by (relation "measure (\<lambda>n. n)") auto

declare showNat.simps [simp del]

subsection \<open>RuleProcessor: the ordering engine\<close>

text \<open>
  The body of the callback of \<^verbatim>\<open>relevantRules.map((rule, index) => ...)\<close>: the base
  object, then the type-specific properties, then the common ones. \<open>order\<close> is the value
  of \<^verbatim>\<open>currentOrder\<close> that \<^verbatim>\<open>currentOrder++\<close> reads.
\<close>

definition baseProcessedRule ::
  "string \<Rightarrow> int \<Rightarrow> bool \<Rightarrow> RuleCategory \<Rightarrow> RuleCollection \<Rightarrow> FirewallRule \<Rightarrow> nat \<Rightarrow> int
    \<Rightarrow> ProcessedRule" where
  "baseProcessedRule groupName groupPriority isParentPolicy ruleCategory collection rule index order =
     \<lparr> pr_ruleType = rule_ruleType rule,
       pr_name = rule_name rule,
       pr_description = rule_description rule,
       pr_protocols = None,
       pr_fqdnTags = None,
       pr_webCategories = None,
       pr_targetFqdns = None,
       pr_targetUrls = None,
       pr_terminateTLS = None,
       pr_httpHeadersToInsert = None,
       pr_ipProtocols = None,
       pr_destinationPorts = None,
       pr_destinationFqdns = None,
       pr_translatedAddress = None,
       pr_translatedPort = None,
       pr_sourceAddresses = None,
       pr_destinationAddresses = None,
       pr_sourceIpGroups = None,
       pr_destinationIpGroups = None,
       pr_id = ''rule_'' @ groupName @ ''_'' @ coll_name collection @ ''_'' @ rule_name rule
                 @ ''_'' @ showNat index,
       pr_collectionName = coll_name collection,
       pr_collectionGroupName = groupName,
       pr_processingOrder = order,
       pr_ruleCategory = ruleCategory,
       pr_groupPriority = groupPriority,
       pr_collectionPriority = coll_priority collection,
       pr_isParentPolicy = isParentPolicy \<rparr>"

definition copyTypeSpecific :: "FirewallRule \<Rightarrow> ProcessedRule \<Rightarrow> ProcessedRule" where
  "copyTypeSpecific rule b =
     (if rule_ruleType rule = ''ApplicationRule'' then
        b\<lparr> pr_protocols := rule_protocols rule,
           pr_fqdnTags := rule_fqdnTags rule,
           pr_webCategories := rule_webCategories rule,
           pr_targetFqdns := rule_targetFqdns rule,
           pr_targetUrls := rule_targetUrls rule,
           pr_terminateTLS := rule_terminateTLS rule,
           pr_httpHeadersToInsert := rule_httpHeadersToInsert rule \<rparr>
      else if rule_ruleType rule = ''NetworkRule'' then
        b\<lparr> pr_ipProtocols := rule_ipProtocols rule,
           pr_destinationPorts := rule_destinationPorts rule,
           pr_destinationFqdns := rule_destinationFqdns rule \<rparr>
      else if rule_ruleType rule = ''NatRule'' then
        b\<lparr> pr_translatedAddress := rule_translatedAddress rule,
           pr_translatedPort := rule_translatedPort rule,
           pr_ipProtocols := rule_ipProtocols rule,
           pr_destinationPorts := rule_destinationPorts rule \<rparr>
      else b)"

definition copyCommon :: "FirewallRule \<Rightarrow> ProcessedRule \<Rightarrow> ProcessedRule" where
  "copyCommon rule b =
     b\<lparr> pr_sourceAddresses := rule_sourceAddresses rule,
        pr_destinationAddresses := rule_destinationAddresses rule,
        pr_sourceIpGroups := rule_sourceIpGroups rule,
        pr_destinationIpGroups := rule_destinationIpGroups rule \<rparr>"

definition processRule ::
  "string \<Rightarrow> int \<Rightarrow> bool \<Rightarrow> RuleCategory \<Rightarrow> RuleCollection \<Rightarrow> FirewallRule \<Rightarrow> nat \<Rightarrow> int
    \<Rightarrow> ProcessedRule" where
  "processRule groupName groupPriority isParentPolicy ruleCategory collection rule index order =
     copyCommon rule (copyTypeSpecific rule
       (baseProcessedRule groupName groupPriority isParentPolicy ruleCategory collection rule
          index order))"

text \<open>
  \<^verbatim>\<open>relevantRules.map((rule, index) => ...)\<close> with its counter: the result is the
  processed rules and the value of \<^verbatim>\<open>currentOrder\<close> after the last increment.
\<close>

fun processRelevantRules ::
  "string \<Rightarrow> int \<Rightarrow> bool \<Rightarrow> RuleCategory \<Rightarrow> RuleCollection \<Rightarrow> FirewallRule list \<Rightarrow> nat \<Rightarrow> int
    \<Rightarrow> ProcessedRule list \<times> int" where
  "processRelevantRules groupName groupPriority isParentPolicy ruleCategory collection [] index
     currentOrder = ([], currentOrder)"
| "processRelevantRules groupName groupPriority isParentPolicy ruleCategory collection
     (rule # rest) index currentOrder =
     (let processed = processRule groupName groupPriority isParentPolicy ruleCategory collection
                        rule index currentOrder;
          (others, currentOrder') =
             processRelevantRules groupName groupPriority isParentPolicy ruleCategory collection
               rest (Suc index) (currentOrder + 1)
      in (processed # others, currentOrder'))"

text \<open>The filter of \<^verbatim>\<open>collection.rules\<close> by the category being processed.\<close>

fun isRelevant :: "RuleCategory \<Rightarrow> FirewallRule \<Rightarrow> bool" where
  "isRelevant DNAT rule = (rule_ruleType rule = ''NatRule'')"
| "isRelevant Network rule = (rule_ruleType rule = ''NetworkRule'')"
| "isRelevant Application rule = (rule_ruleType rule = ''ApplicationRule'')"

definition processCollection ::
  "string \<Rightarrow> int \<Rightarrow> bool \<Rightarrow> RuleCategory \<Rightarrow> RuleCollection \<Rightarrow> int
    \<Rightarrow> ProcessedRuleCollection \<times> int" where
  "processCollection groupName groupPriority isParentPolicy ruleCategory collection currentOrder =
     (let relevantRules = filter (isRelevant ruleCategory) (coll_rules collection);
          (processedRules, currentOrder') =
             processRelevantRules groupName groupPriority isParentPolicy ruleCategory collection
               relevantRules 0 currentOrder
      in (\<lparr> pc_ruleCollectionType = coll_ruleCollectionType collection,
             pc_name = coll_name collection,
             pc_priority = coll_priority collection,
             pc_rules = coll_rules collection,
             pc_action = coll_action collection,
             pc_id = ''collection_'' @ groupName @ ''_'' @ coll_name collection,
             pc_groupName = groupName,
             pc_groupPriority = groupPriority,
             pc_ruleCategory = ruleCategory,
             pc_processedRules = processedRules \<rparr>, currentOrder'))"

text \<open>\<^verbatim>\<open>sortedCollections.map(collection => ...)\<close>, the counter shared by all of them.\<close>

fun processSortedCollections ::
  "string \<Rightarrow> int \<Rightarrow> bool \<Rightarrow> RuleCategory \<Rightarrow> RuleCollection list \<Rightarrow> int
    \<Rightarrow> ProcessedRuleCollection list" where
  "processSortedCollections groupName groupPriority isParentPolicy ruleCategory [] currentOrder = []"
| "processSortedCollections groupName groupPriority isParentPolicy ruleCategory
     (collection # rest) currentOrder =
     (let (processed, currentOrder') =
             processCollection groupName groupPriority isParentPolicy ruleCategory collection
               currentOrder
      in processed # processSortedCollections groupName groupPriority isParentPolicy ruleCategory
                       rest currentOrder')"

definition compareCollections :: "RuleCollection \<Rightarrow> RuleCollection \<Rightarrow> int" where
  "compareCollections a b = coll_priority a - coll_priority b"

definition processRuleCollectionsByType ::
  "RuleCollection list \<Rightarrow> RuleCategory \<Rightarrow> string \<Rightarrow> int \<Rightarrow> bool \<Rightarrow> int
    \<Rightarrow> ProcessedRuleCollection list" where
  "processRuleCollectionsByType collections ruleCategory groupName groupPriority isParentPolicy
     startingOrder =
     processSortedCollections groupName groupPriority isParentPolicy ruleCategory
       (sortBy compareCollections collections) startingOrder"

text \<open>
  \<^verbatim>\<open>getMaxProcessingOrderFromCollections\<close> and \<^verbatim>\<open>getMaxProcessingOrder\<close>: the two
  nested \<^verbatim>\<open>forEach\<close> loops keep the largest order seen, starting from 0.
\<close>

definition maxOrderStep :: "int \<Rightarrow> ProcessedRule \<Rightarrow> int" where
  "maxOrderStep maxOrder rule =
     (if pr_processingOrder rule > maxOrder then pr_processingOrder rule else maxOrder)"

definition getMaxProcessingOrderFromCollections :: "ProcessedRuleCollection list \<Rightarrow> int" where
  "getMaxProcessingOrderFromCollections collections =
     foldl (\<lambda>maxOrder collection. foldl maxOrderStep maxOrder (pc_processedRules collection))
       0 collections"

definition getMaxProcessingOrder :: "ProcessedRuleCollectionGroup \<Rightarrow> int" where
  "getMaxProcessingOrder grp =
     foldl (\<lambda>maxOrder collection. foldl maxOrderStep maxOrder (pc_processedRules collection))
       0 (pg_processedCollections grp)"

definition hasRuleOfType :: "string \<Rightarrow> RuleCollection \<Rightarrow> bool" where
  "hasRuleOfType t collection = list_ex (\<lambda>rule. rule_ruleType rule = t) (coll_rules collection)"

definition processRuleCollectionGroup ::
  "RuleCollectionGroup \<Rightarrow> bool \<Rightarrow> int \<Rightarrow> ProcessedRuleCollectionGroup" where
  "processRuleCollectionGroup grp isParentPolicy startingOrder =
     (let dnatCollections = filter (hasRuleOfType ''NatRule'') (grp_ruleCollections grp);
          networkCollections = filter (hasRuleOfType ''NetworkRule'') (grp_ruleCollections grp);
          applicationCollections =
            filter (hasRuleOfType ''ApplicationRule'') (grp_ruleCollections grp);
          currentOrder = startingOrder;
          processedDnatCollections =
            processRuleCollectionsByType dnatCollections DNAT (grp_name grp)
              (grp_priority grp) isParentPolicy currentOrder;
          currentOrder = getMaxProcessingOrderFromCollections processedDnatCollections + 1;
          processedNetworkCollections =
            processRuleCollectionsByType networkCollections Network (grp_name grp)
              (grp_priority grp) isParentPolicy currentOrder;
          currentOrder = getMaxProcessingOrderFromCollections processedNetworkCollections + 1;
          processedApplicationCollections =
            processRuleCollectionsByType applicationCollections Application (grp_name grp)
              (grp_priority grp) isParentPolicy currentOrder
      in \<lparr> pg_id = ''group_'' @ grp_name grp,
            pg_name = grp_name grp,
            pg_priority = grp_priority grp,
            pg_ruleCollections = grp_ruleCollections grp,
            pg_processedCollections =
              processedDnatCollections @ processedNetworkCollections
                @ processedApplicationCollections,
            pg_isParentPolicy = isParentPolicy \<rparr>)"

text \<open>
  The comparator of \<^verbatim>\<open>allGroups.sort\<close>: parent groups first, then by priority.
\<close>

definition compareGroups ::
  "RuleCollectionGroup \<times> bool \<Rightarrow> RuleCollectionGroup \<times> bool \<Rightarrow> int" where
  "compareGroups a b =
     (if snd a \<and> \<not> snd b then - 1
      else if \<not> snd a \<and> snd b then 1
      else grp_priority (fst a) - grp_priority (fst b))"

text \<open>
  \<^verbatim>\<open>allGroups.map(({ group, isParent }) => ...)\<close>; the callback assigns
  \<^verbatim>\<open>globalProcessingOrder = getMaxProcessingOrder(processedGroup) + 1\<close> after each group.
\<close>

fun processGroups ::
  "(RuleCollectionGroup \<times> bool) list \<Rightarrow> int \<Rightarrow> ProcessedRuleCollectionGroup list" where
  "processGroups [] globalProcessingOrder = []"
| "processGroups ((grp, isParent) # rest) globalProcessingOrder =
     (let processedGroup = processRuleCollectionGroup grp isParent globalProcessingOrder
      in processedGroup # processGroups rest (getMaxProcessingOrder processedGroup + 1))"

definition allGroups ::
  "FirewallPolicy \<Rightarrow> FirewallPolicy option \<Rightarrow> (RuleCollectionGroup \<times> bool) list" where
  "allGroups policy parentPolicy =
     (case parentPolicy of
        None \<Rightarrow> []
      | Some parent \<Rightarrow> map (\<lambda>grp. (grp, True)) (pol_ruleCollectionGroups parent))
     @ map (\<lambda>grp. (grp, False)) (pol_ruleCollectionGroups policy)"

definition processFirewallPolicy ::
  "FirewallPolicy \<Rightarrow> FirewallPolicy option \<Rightarrow> ProcessedRuleCollectionGroup list" where
  "processFirewallPolicy policy parentPolicy =
     processGroups (sortBy compareGroups (allGroups policy parentPolicy)) 1"

text \<open>
  \<^verbatim>\<open>RuleAnalyzer.getAllRulesFlat\<close>: the processed rules in emission order.
  \<^verbatim>\<open>RuleProcessor.getAllRulesInProcessingOrder\<close> sorts that list by processing order.
\<close>

definition getAllRulesFlat :: "ProcessedRuleCollectionGroup list \<Rightarrow> ProcessedRule list" where
  "getAllRulesFlat groups =
     concat (map (\<lambda>grp. concat (map pc_processedRules (pg_processedCollections grp))) groups)"

definition compareOrder :: "ProcessedRule \<Rightarrow> ProcessedRule \<Rightarrow> int" where
  "compareOrder a b = pr_processingOrder a - pr_processingOrder b"

definition getAllRulesInProcessingOrder ::
  "ProcessedRuleCollectionGroup list \<Rightarrow> ProcessedRule list" where
  "getAllRulesInProcessingOrder groups = sortBy compareOrder (getAllRulesFlat groups)"

text \<open>
  \<^verbatim>\<open>RuleProcessor.getProcessingStatistics\<close>. The object \<^verbatim>\<open>rulesByCategory\<close> is
  indexed by the category, so it is a function from categories to counts; a bound of a
  priority range is \<open>None\<close> while it still holds its initial \<^verbatim>\<open>Infinity\<close> or
  \<^verbatim>\<open>-Infinity\<close>.
\<close>

record ProcessingStatistics =
  ps_totalGroups :: nat
  ps_totalCollections :: nat
  ps_totalRules :: nat
  ps_parentPolicyGroups :: nat
  ps_childPolicyGroups :: nat
  ps_rulesByCategory :: "RuleCategory \<Rightarrow> nat"
  ps_groupsMin :: "int option"
  ps_groupsMax :: "int option"
  ps_collectionsMin :: "int option"
  ps_collectionsMax :: "int option"

definition mathMin :: "int option \<Rightarrow> int \<Rightarrow> int option" where
  "mathMin bound x = (case bound of None \<Rightarrow> Some x | Some b \<Rightarrow> Some (min b x))"

definition mathMax :: "int option \<Rightarrow> int \<Rightarrow> int option" where
  "mathMax bound x = (case bound of None \<Rightarrow> Some x | Some b \<Rightarrow> Some (max b x))"

definition statsRule :: "ProcessingStatistics \<Rightarrow> ProcessedRule \<Rightarrow> ProcessingStatistics" where
  "statsRule stats rule =
     stats\<lparr> ps_rulesByCategory :=
       (ps_rulesByCategory stats)
         (pr_ruleCategory rule := ps_rulesByCategory stats (pr_ruleCategory rule) + 1) \<rparr>"

definition statsCollection ::
  "ProcessingStatistics \<Rightarrow> ProcessedRuleCollection \<Rightarrow> ProcessingStatistics" where
  "statsCollection stats collection =
     foldl statsRule
       (stats\<lparr> ps_totalRules := ps_totalRules stats + length (pc_processedRules collection),
               ps_collectionsMin := mathMin (ps_collectionsMin stats) (pc_priority collection),
               ps_collectionsMax := mathMax (ps_collectionsMax stats) (pc_priority collection) \<rparr>)
       (pc_processedRules collection)"

definition statsGroup ::
  "ProcessingStatistics \<Rightarrow> ProcessedRuleCollectionGroup \<Rightarrow> ProcessingStatistics" where
  "statsGroup stats grp =
     (let stats1 = stats\<lparr> ps_totalCollections :=
                      ps_totalCollections stats + length (pg_processedCollections grp),
                    ps_groupsMin := mathMin (ps_groupsMin stats) (pg_priority grp),
                    ps_groupsMax := mathMax (ps_groupsMax stats) (pg_priority grp) \<rparr>;
          stats2 = (if pg_isParentPolicy grp
                    then stats1\<lparr> ps_parentPolicyGroups := ps_parentPolicyGroups stats1 + 1 \<rparr>
                    else stats1\<lparr> ps_childPolicyGroups := ps_childPolicyGroups stats1 + 1 \<rparr>)
      in foldl statsCollection stats2 (pg_processedCollections grp))"

definition getProcessingStatistics ::
  "ProcessedRuleCollectionGroup list \<Rightarrow> ProcessingStatistics" where
  "getProcessingStatistics groups =
     foldl statsGroup
       \<lparr> ps_totalGroups = length groups,
         ps_totalCollections = 0,
         ps_totalRules = 0,
         ps_parentPolicyGroups = 0,
         ps_childPolicyGroups = 0,
         ps_rulesByCategory = (\<lambda>category. 0),
         ps_groupsMin = None,
         ps_groupsMax = None,
         ps_collectionsMin = None,
         ps_collectionsMax = None \<rparr>
       groups"

subsection \<open>String built-ins used by the analyzer\<close>

text \<open>
  \<^verbatim>\<open>toLowerCase\<close> on ASCII text maps \<open>A\<close>..\<open>Z\<close> (codes 65..90) to
  \<open>a\<close>..\<open>z\<close>; \<^verbatim>\<open>trim\<close> strips the ASCII white space and line terminators
  (tab, line feed, vertical tab, form feed, carriage return, space) from both ends;
  \<^verbatim>\<open>s.includes(t)\<close> (\<open>stringIncludes\<close>) holds when \<open>t\<close> occurs in \<open>s\<close> as a contiguous run;
  \<^verbatim>\<open>sort()\<close> without a comparator orders strings by their code units, which is the
  lexicographic order of \<open>char list\<close>.
\<close>

definition toLowerChar :: "char \<Rightarrow> char" where
  "toLowerChar c =
     (if (65::nat) \<le> of_char c \<and> of_char c \<le> (90::nat) then char_of (of_char c + (32::nat))
      else c)"

definition toLowerCase :: "string \<Rightarrow> string" where
  "toLowerCase s = map toLowerChar s"

definition isWhiteSpace :: "char \<Rightarrow> bool" where
  "isWhiteSpace c = (of_char c \<in> {9, 10, 11, 12, 13, 32 :: nat})"

definition trim :: "string \<Rightarrow> string" where
  "trim s = rev (dropWhile isWhiteSpace (rev (dropWhile isWhiteSpace s)))"

fun startsWith :: "string \<Rightarrow> string \<Rightarrow> bool" where
  "startsWith s [] = True"
| "startsWith [] (p # ps) = False"
| "startsWith (c # cs) (p # ps) = (c = p \<and> startsWith cs ps)"

fun stringIncludes :: "string \<Rightarrow> string \<Rightarrow> bool" where
  "stringIncludes [] t = (t = [])"
| "stringIncludes (c # cs) t = (startsWith (c # cs) t \<or> stringIncludes cs t)"

definition sortStrings :: "string list \<Rightarrow> string list" where
  "sortStrings xs = sort xs"

subsection \<open>RuleAnalyzer: fingerprints\<close>

record RuleFingerprint =
  fp_sourceAddresses :: "string list"
  fp_destinationAddresses :: "string list"
  fp_destinationPorts :: "string list"
  fp_ipProtocols :: "string list"
  fp_targetFqdns :: "string list"
  fp_ruleType :: string

text \<open>\<^verbatim>\<open>x || []\<close> for an optional array.\<close>

definition orEmpty :: "'a list option \<Rightarrow> 'a list" where
  "orEmpty x = (case x of None \<Rightarrow> [] | Some xs \<Rightarrow> xs)"

definition normalizeAddresses :: "string list \<Rightarrow> string list" where
  "normalizeAddresses addresses = sortStrings (map (\<lambda>addr. trim (toLowerCase addr)) addresses)"

definition normalizePorts :: "string list \<Rightarrow> string list" where
  "normalizePorts ports = sortStrings (map (\<lambda>port. trim port) ports)"

definition normalizeProtocols :: "string list \<Rightarrow> string list" where
  "normalizeProtocols protocols = sortStrings (map (\<lambda>proto. trim (toLowerCase proto)) protocols)"

definition normalizeFqdns :: "string list \<Rightarrow> string list" where
  "normalizeFqdns fqdns = sortStrings (map (\<lambda>fqdn. trim (toLowerCase fqdn)) fqdns)"

definition generateRuleFingerprint :: "ProcessedRule \<Rightarrow> RuleFingerprint" where
  "generateRuleFingerprint rule =
     \<lparr> fp_sourceAddresses = normalizeAddresses (orEmpty (pr_sourceAddresses rule)),
       fp_destinationAddresses = normalizeAddresses (orEmpty (pr_destinationAddresses rule)),
       fp_destinationPorts = normalizePorts (orEmpty (pr_destinationPorts rule)),
       fp_ipProtocols = normalizeProtocols (orEmpty (pr_ipProtocols rule)),
       fp_targetFqdns = normalizeFqdns (orEmpty (pr_targetFqdns rule)),
       fp_ruleType = pr_ruleType rule \<rparr>"

subsection \<open>RuleAnalyzer: conflicts\<close>

datatype ConflictType = allow_deny_conflict | priority_conflict | overlapping_rules

datatype Severity = high | medium | low

record RuleConflict =
  rc_id :: string
  rc_conflictType :: ConflictType
  rc_primary :: ProcessedRule
  rc_conflicting :: ProcessedRule
  rc_severity :: Severity

definition hasArrayOverlap :: "string list \<Rightarrow> string list \<Rightarrow> bool" where
  "hasArrayOverlap arr1 arr2 =
     (if length arr1 = 0 \<or> length arr2 = 0 then True
      else list_ex (\<lambda>item. item \<in> set arr2) arr1)"

definition arraysEqual :: "string list \<Rightarrow> string list \<Rightarrow> bool" where
  "arraysEqual arr1 arr2 =
     (if length arr1 \<noteq> length arr2 then False
      else list_all (\<lambda>item. item \<in> set arr2) arr1)"

definition hasOverlappingTrafficPattern :: "RuleFingerprint \<Rightarrow> RuleFingerprint \<Rightarrow> bool" where
  "hasOverlappingTrafficPattern fp1 fp2 =
     (if \<not> hasArrayOverlap (fp_sourceAddresses fp1) (fp_sourceAddresses fp2) then False
      else
        let dest1 = fp_destinationAddresses fp1 @ fp_targetFqdns fp1;
            dest2 = fp_destinationAddresses fp2 @ fp_targetFqdns fp2
        in if \<not> hasArrayOverlap dest1 dest2 then False
           else if \<not> hasArrayOverlap (fp_destinationPorts fp1) (fp_destinationPorts fp2) then False
           else if \<not> hasArrayOverlap (fp_ipProtocols fp1) (fp_ipProtocols fp2) then False
           else True)"

definition areTrafficPatternsIdentical :: "RuleFingerprint \<Rightarrow> RuleFingerprint \<Rightarrow> bool" where
  "areTrafficPatternsIdentical fp1 fp2 =
     (arraysEqual (fp_sourceAddresses fp1) (fp_sourceAddresses fp2) \<and>
      arraysEqual (fp_destinationAddresses fp1) (fp_destinationAddresses fp2) \<and>
      arraysEqual (fp_targetFqdns fp1) (fp_targetFqdns fp2) \<and>
      arraysEqual (fp_destinationPorts fp1) (fp_destinationPorts fp2) \<and>
      arraysEqual (fp_ipProtocols fp1) (fp_ipProtocols fp2))"

definition getRuleAction :: "ProcessedRule \<Rightarrow> string" where
  "getRuleAction rule =
     (let ruleName = toLowerCase (pr_name rule);
          collectionName = toLowerCase (pr_collectionName rule)
      in if stringIncludes ruleName ''deny'' \<or> stringIncludes ruleName ''block'' \<or>
            stringIncludes collectionName ''deny'' \<or> stringIncludes collectionName ''block''
         then ''Deny'' else ''Allow'')"

text \<open>
  \<^verbatim>\<open>detectConflictBetweenRules\<close>: \<open>None\<close> is the \<^verbatim>\<open>null\<close> of the source, \<open>Some\<close>
  carries the type and the severity of the conflict.
\<close>

definition detectConflictBetweenRules ::
  "ProcessedRule \<Rightarrow> ProcessedRule \<Rightarrow> (ConflictType \<times> Severity) option" where
  "detectConflictBetweenRules rule1 rule2 =
     (if pr_ruleType rule1 \<noteq> pr_ruleType rule2 then None
      else
        let fingerprint1 = generateRuleFingerprint rule1;
            fingerprint2 = generateRuleFingerprint rule2
        in if \<not> hasOverlappingTrafficPattern fingerprint1 fingerprint2 then None
           else if (pr_ruleType rule1 = ''NetworkRule'' \<or> pr_ruleType rule1 = ''ApplicationRule'')
                   \<and> getRuleAction rule1 \<noteq> getRuleAction rule2
                then Some (allow_deny_conflict, high)
           else if pr_processingOrder rule1 < pr_processingOrder rule2
                   \<and> areTrafficPatternsIdentical fingerprint1 fingerprint2
                then Some (priority_conflict, medium)
           else Some (overlapping_rules, low))"

text \<open>
  The inner loop of \<^verbatim>\<open>findRuleConflicts\<close> (\<open>j\<close> from \<open>i + 1\<close>) for a fixed
  \<^verbatim>\<open>rule1 = sortedRules[i]\<close>, and the outer loop; \<^verbatim>\<open>conflictId\<close> is threaded.
\<close>

fun conflictsWith ::
  "ProcessedRule \<Rightarrow> ProcessedRule list \<Rightarrow> nat \<Rightarrow> RuleConflict list \<times> nat" where
  "conflictsWith rule1 [] conflictId = ([], conflictId)"
| "conflictsWith rule1 (rule2 # rest) conflictId =
     (case detectConflictBetweenRules rule1 rule2 of
        None \<Rightarrow> conflictsWith rule1 rest conflictId
      | Some (conflictType, severity) \<Rightarrow>
          (let (others, conflictId') = conflictsWith rule1 rest (conflictId + 1)
           in (\<lparr> rc_id = ''conflict_'' @ showNat conflictId,
                  rc_conflictType = conflictType,
                  rc_primary = rule1,
                  rc_conflicting = rule2,
                  rc_severity = severity \<rparr> # others, conflictId')))"

fun conflictLoop :: "ProcessedRule list \<Rightarrow> nat \<Rightarrow> RuleConflict list" where
  "conflictLoop [] conflictId = []"
| "conflictLoop (rule1 # rest) conflictId =
     (let (found, conflictId') = conflictsWith rule1 rest conflictId
      in found @ conflictLoop rest conflictId')"

definition findRuleConflicts :: "ProcessedRule list \<Rightarrow> RuleConflict list" where
  "findRuleConflicts rules = conflictLoop (sortBy compareOrder rules) 1"

subsection \<open>RuleAnalyzer: duplicates and the analysis\<close>

datatype DuplicateType = exact_duplicate | similar_rules

record DuplicateGroup =
  dg_id :: string
  dg_fingerprint :: RuleFingerprint
  dg_rules :: "ProcessedRule list"
  dg_type :: DuplicateType

text \<open>
  \<^verbatim>\<open>fingerprintMap\<close> is a \<^verbatim>\<open>Map\<close>, which iterates in insertion order: an
  association list. Its key is the JSON text of the fingerprint;
  \<^verbatim>\<open>deserializeFingerprint\<close> reads the fingerprint back from it, so the list is keyed
  by the fingerprint itself.
\<close>

fun addToFingerprintMap ::
  "RuleFingerprint \<Rightarrow> ProcessedRule \<Rightarrow> (RuleFingerprint \<times> ProcessedRule list) list
    \<Rightarrow> (RuleFingerprint \<times> ProcessedRule list) list" where
  "addToFingerprintMap key rule [] = [(key, [rule])]"
| "addToFingerprintMap key rule ((key', groupRules) # rest) =
     (if key' = key then (key', groupRules @ [rule]) # rest
      else (key', groupRules) # addToFingerprintMap key rule rest)"

definition fingerprintMap ::
  "ProcessedRule list \<Rightarrow> (RuleFingerprint \<times> ProcessedRule list) list" where
  "fingerprintMap rules =
     foldl (\<lambda>m rule. addToFingerprintMap (generateRuleFingerprint rule) rule m) [] rules"

definition areRulesExactDuplicates :: "ProcessedRule list \<Rightarrow> bool" where
  "areRulesExactDuplicates rules =
     (if length rules < 2 then False
      else
        let firstRule = hd rules
        in list_all (\<lambda>rule. pr_name rule = pr_name firstRule \<and>
                             pr_collectionName rule = pr_collectionName firstRule) rules)"

fun duplicateGroupsFrom ::
  "(RuleFingerprint \<times> ProcessedRule list) list \<Rightarrow> nat \<Rightarrow> DuplicateGroup list" where
  "duplicateGroupsFrom [] duplicateGroupId = []"
| "duplicateGroupsFrom ((fingerprint, groupRules) # rest) duplicateGroupId =
     (if length groupRules > 1 then
        \<lparr> dg_id = ''duplicate_'' @ showNat duplicateGroupId,
          dg_fingerprint = fingerprint,
          dg_rules = groupRules,
          dg_type = (if areRulesExactDuplicates groupRules then exact_duplicate
                     else similar_rules) \<rparr>
          # duplicateGroupsFrom rest (duplicateGroupId + 1)
      else duplicateGroupsFrom rest duplicateGroupId)"

definition findDuplicateRules :: "ProcessedRule list \<Rightarrow> DuplicateGroup list" where
  "findDuplicateRules rules = duplicateGroupsFrom (fingerprintMap rules) 1"

record AnalysisStatistics =
  st_totalRules :: nat
  st_duplicateRules :: nat
  st_conflictingRules :: nat
  st_duplicateGroups :: nat
  st_conflicts :: nat

record RuleAnalysis =
  ra_duplicates :: "DuplicateGroup list"
  ra_conflicts :: "RuleConflict list"
  ra_statistics :: AnalysisStatistics

text \<open>\<^verbatim>\<open>new Set([...]).size\<close>: the number of distinct elements of the array.\<close>

definition setSize :: "'a list \<Rightarrow> nat" where
  "setSize xs = length (remdups xs)"

definition analyzeRules :: "ProcessedRuleCollectionGroup list \<Rightarrow> RuleAnalysis" where
  "analyzeRules groups =
     (let allRules = getAllRulesFlat groups;
          duplicates = findDuplicateRules allRules;
          conflicts = findRuleConflicts allRules;
          duplicateRulesCount = foldl (\<lambda>sum grp. sum + length (dg_rules grp)) 0 duplicates;
          conflictingRulesCount =
            setSize (map (\<lambda>c. pr_id (rc_primary c)) conflicts
                       @ map (\<lambda>c. pr_id (rc_conflicting c)) conflicts)
      in \<lparr> ra_duplicates = duplicates,
            ra_conflicts = conflicts,
            ra_statistics =
              \<lparr> st_totalRules = length allRules,
                st_duplicateRules = duplicateRulesCount,
                st_conflictingRules = conflictingRulesCount,
                st_duplicateGroups = length duplicates,
                st_conflicts = length conflicts \<rparr> \<rparr>)"

subsection \<open>Rules as the parser builds them\<close>

text \<open>
  \<^verbatim>\<open>FirewallPolicyParser.parseRule\<close> fills the array properties of each kind (an absent
  array becomes \<^verbatim>\<open>[]\<close>) and leaves the properties of the other kinds undefined. The
  three constructors below build such rules; they are used for the concrete policies.
\<close>

definition natRule ::
  "string \<Rightarrow> string \<Rightarrow> string \<Rightarrow> string list \<Rightarrow> string list \<Rightarrow> string list \<Rightarrow> string list
    \<Rightarrow> FirewallRule" where
  "natRule name translatedAddress translatedPort ipProtocols sourceAddresses
     destinationAddresses destinationPorts =
     \<lparr> rule_ruleType = ''NatRule'', rule_name = name, rule_description = None,
       rule_protocols = None, rule_fqdnTags = None, rule_webCategories = None,
       rule_targetFqdns = None, rule_targetUrls = None, rule_terminateTLS = None,
       rule_httpHeadersToInsert = None,
       rule_ipProtocols = Some ipProtocols, rule_destinationPorts = Some destinationPorts,
       rule_destinationFqdns = None,
       rule_translatedAddress = Some translatedAddress,
       rule_translatedPort = Some translatedPort,
       rule_sourceAddresses = Some sourceAddresses,
       rule_destinationAddresses = Some destinationAddresses,
       rule_sourceIpGroups = Some [], rule_destinationIpGroups = None \<rparr>"

definition networkRule ::
  "string \<Rightarrow> string list \<Rightarrow> string list \<Rightarrow> string list \<Rightarrow> string list \<Rightarrow> FirewallRule" where
  "networkRule name ipProtocols sourceAddresses destinationAddresses destinationPorts =
     \<lparr> rule_ruleType = ''NetworkRule'', rule_name = name, rule_description = None,
       rule_protocols = None, rule_fqdnTags = None, rule_webCategories = None,
       rule_targetFqdns = None, rule_targetUrls = None, rule_terminateTLS = None,
       rule_httpHeadersToInsert = None,
       rule_ipProtocols = Some ipProtocols, rule_destinationPorts = Some destinationPorts,
       rule_destinationFqdns = None, rule_translatedAddress = None, rule_translatedPort = None,
       rule_sourceAddresses = Some sourceAddresses,
       rule_destinationAddresses = Some destinationAddresses,
       rule_sourceIpGroups = Some [], rule_destinationIpGroups = Some [] \<rparr>"

definition applicationRule ::
  "string \<Rightarrow> string list \<Rightarrow> string list \<Rightarrow> (string \<times> int) list \<Rightarrow> FirewallRule" where
  "applicationRule name sourceAddresses targetFqdns protocols =
     \<lparr> rule_ruleType = ''ApplicationRule'', rule_name = name, rule_description = None,
       rule_protocols = Some protocols, rule_fqdnTags = Some [], rule_webCategories = Some [],
       rule_targetFqdns = Some targetFqdns, rule_targetUrls = Some [],
       rule_terminateTLS = Some False, rule_httpHeadersToInsert = Some [],
       rule_ipProtocols = None, rule_destinationPorts = None,
       rule_destinationFqdns = None, rule_translatedAddress = None, rule_translatedPort = None,
       rule_sourceAddresses = Some sourceAddresses,
       rule_destinationAddresses = Some [],
       rule_sourceIpGroups = Some [], rule_destinationIpGroups = None \<rparr>"

definition filterCollection ::
  "string \<Rightarrow> int \<Rightarrow> string \<Rightarrow> FirewallRule list \<Rightarrow> RuleCollection" where
  "filterCollection name priority action rules =
     \<lparr> coll_ruleCollectionType = ''FirewallPolicyFilterRuleCollection'', coll_name = name,
       coll_priority = priority, coll_rules = rules, coll_action = action \<rparr>"

definition natCollection :: "string \<Rightarrow> int \<Rightarrow> FirewallRule list \<Rightarrow> RuleCollection" where
  "natCollection name priority rules =
     \<lparr> coll_ruleCollectionType = ''FirewallPolicyNatRuleCollection'', coll_name = name,
       coll_priority = priority, coll_rules = rules, coll_action = ''Dnat'' \<rparr>"

subsection \<open>Notions used to state the properties\<close>

text \<open>
  The processed rules of a list of processed collections and of a processed group, in
  emission order; the rule kind that a category selects.
\<close>

definition rulesOfCollections :: "ProcessedRuleCollection list \<Rightarrow> ProcessedRule list" where
  "rulesOfCollections pcs = concat (map pc_processedRules pcs)"

definition rulesOfGroup :: "ProcessedRuleCollectionGroup \<Rightarrow> ProcessedRule list" where
  "rulesOfGroup g = rulesOfCollections (pg_processedCollections g)"

fun categoryKind :: "RuleCategory \<Rightarrow> string" where
  "categoryKind DNAT = ''NatRule''"
| "categoryKind Network = ''NetworkRule''"
| "categoryKind Application = ''ApplicationRule''"

text \<open>The two nested loops of \<^verbatim>\<open>getMaxProcessingOrder\<close> from an arbitrary start value.\<close>

definition maxOver :: "int \<Rightarrow> ProcessedRuleCollection list \<Rightarrow> int" where
  "maxOver m pcs =
     foldl (\<lambda>maxOrder collection. foldl maxOrderStep maxOrder (pc_processedRules collection)) m pcs"

subsection \<open>Concrete policies\<close>

text \<open>
  Scenario B: the policy of the test fixture \<^verbatim>\<open>complex-policy.json\<close> as the tests
  describe it (names, priorities, the NAT rule and the application rule are those the
  tests read back).
\<close>

definition scenarioB :: FirewallPolicy where
  "scenarioB =
     \<lparr> pol_name = ''complex-test-policy'',
       pol_ruleCollectionGroups =
         [\<lparr> grp_name = ''HighPriorityGroup'', grp_priority = 100,
            grp_ruleCollections =
              [natCollection ''DNATRules'' 100
                 [natRule ''WebServerNAT'' ''10.0.1.10'' ''80'' [''TCP''] [''*'']
                    [''203.0.113.10''] [''8080'']],
               filterCollection ''NetworkRules'' 200 ''Allow''
                 [networkRule ''AllowWeb'' [''TCP''] [''10.0.0.0/8''] [''*''] [''80'', ''443''],
                  networkRule ''AllowDNS'' [''UDP''] [''10.0.0.0/8''] [''8.8.8.8''] [''53'']],
               filterCollection ''ApplicationRules'' 300 ''Allow''
                 [applicationRule ''AllowMicrosoft'' [''10.0.0.0/8'']
                    [''*.microsoft.com'', ''*.windows.com''] [(''Https'', 443)]]] \<rparr>,
          \<lparr> grp_name = ''LowPriorityGroup'', grp_priority = 1000,
            grp_ruleCollections =
              [filterCollection ''DenyRules'' 100 ''Deny''
                 [networkRule ''DenyAll'' [''Any''] [''*''] [''*''] [''*'']]] \<rparr>] \<rparr>"

text \<open>A policy of two groups, each holding one network rule.\<close>

definition twoGroups :: FirewallPolicy where
  "twoGroups =
     \<lparr> pol_name = ''two-groups'',
       pol_ruleCollectionGroups =
         [\<lparr> grp_name = ''First'', grp_priority = 100,
            grp_ruleCollections =
              [filterCollection ''Web'' 100 ''Allow''
                 [networkRule ''AllowHTTP'' [''TCP''] [''10.0.0.0/8''] [''*''] [''80'']]] \<rparr>,
          \<lparr> grp_name = ''Second'', grp_priority = 200,
            grp_ruleCollections =
              [filterCollection ''Dns'' 100 ''Allow''
                 [networkRule ''AllowDNS'' [''UDP''] [''10.0.0.0/8''] [''*''] [''53'']]] \<rparr>] \<rparr>"

text \<open>
  Scenario A, the policy of the fixture \<^verbatim>\<open>minimal-policy.json\<close> as the spec and the
  parser tests describe it, and a parent policy whose only group has a larger priority
  number than the group of the child.
\<close>

definition allowHTTP :: FirewallRule where
  "allowHTTP = networkRule ''AllowHTTP'' [''TCP''] [''10.0.0.0/8''] [''*''] [''80'']"

definition minimalGroup :: RuleCollectionGroup where
  "minimalGroup =
     \<lparr> grp_name = ''TestRuleCollectionGroup'', grp_priority = 200,
       grp_ruleCollections =
         [filterCollection ''TestNetworkRuleCollection'' 1000 ''Allow'' [allowHTTP]] \<rparr>"

definition minimalPolicy :: FirewallPolicy where
  "minimalPolicy = \<lparr> pol_name = ''test-policy'', pol_ruleCollectionGroups = [minimalGroup] \<rparr>"

definition parentNat :: FirewallRule where
  "parentNat = natRule ''ParentNAT'' ''10.0.1.10'' ''80'' [''TCP''] [''*''] [''203.0.113.10'']
                 [''8080'']"

definition lateParentGroup :: RuleCollectionGroup where
  "lateParentGroup =
     \<lparr> grp_name = ''ParentGroup'', grp_priority = 60000,
       grp_ruleCollections = [natCollection ''ParentDNAT'' 500 [parentNat]] \<rparr>"

definition lateParent :: FirewallPolicy where
  "lateParent = \<lparr> pol_name = ''parent-policy'', pol_ruleCollectionGroups = [lateParentGroup] \<rparr>"

text \<open>
  What identifies a rule in the input and in the output: the names of its group and of
  its collection, its own name and its kind. \<open>recognisedRules\<close> lists these keys for
  the rules of the three declared kinds, over the groups of the parent and of the child.
\<close>

type_synonym RuleKey = "string \<times> string \<times> string \<times> string"

definition processedKey :: "ProcessedRule \<Rightarrow> RuleKey" where
  "processedKey r = (pr_collectionGroupName r, pr_collectionName r, pr_name r, pr_ruleType r)"

definition ruleKey :: "string \<Rightarrow> RuleCollection \<Rightarrow> FirewallRule \<Rightarrow> RuleKey" where
  "ruleKey groupName collection rule =
     (groupName, coll_name collection, rule_name rule, rule_ruleType rule)"

definition recognisedKind :: "FirewallRule \<Rightarrow> bool" where
  "recognisedKind rule =
     (rule_ruleType rule = ''NatRule'' \<or> rule_ruleType rule = ''NetworkRule''
      \<or> rule_ruleType rule = ''ApplicationRule'')"

definition keysOfCollection ::
  "(FirewallRule \<Rightarrow> bool) \<Rightarrow> string \<Rightarrow> RuleCollection \<Rightarrow> RuleKey list" where
  "keysOfCollection P groupName collection =
     map (ruleKey groupName collection) (filter P (coll_rules collection))"

definition keysOfGroup :: "(FirewallRule \<Rightarrow> bool) \<Rightarrow> RuleCollectionGroup \<Rightarrow> RuleKey list" where
  "keysOfGroup P grp = concat (map (keysOfCollection P (grp_name grp)) (grp_ruleCollections grp))"

definition recognisedRules :: "FirewallPolicy \<Rightarrow> FirewallPolicy option \<Rightarrow> RuleKey list" where
  "recognisedRules policy parentPolicy =
     concat (map (\<lambda>g. keysOfGroup recognisedKind (fst g)) (allGroups policy parentPolicy))"

text \<open>A policy whose only collection holds a rule of an undeclared kind beside \<open>allowHTTP\<close>.\<close>

definition futureRule :: FirewallRule where
  "futureRule = allowHTTP\<lparr> rule_ruleType := ''FutureRule'', rule_name := ''FromTheFuture'' \<rparr>"

definition futurePolicy :: FirewallPolicy where
  "futurePolicy =
     \<lparr> pol_name = ''future-policy'',
       pol_ruleCollectionGroups =
         [\<lparr> grp_name = ''Group'', grp_priority = 200,
            grp_ruleCollections =
              [filterCollection ''Mixed'' 1000 ''Allow'' [futureRule, allowHTTP]] \<rparr>] \<rparr>"

text \<open>
  The pairs \<open>(sortedRules[i], sortedRules[j])\<close> with \<open>i < j\<close> in the order in which
  the two loops of \<^verbatim>\<open>findRuleConflicts\<close> visit them, and what a conflict record says
  apart from its id.
\<close>

fun orderedPairs :: "'a list \<Rightarrow> ('a \<times> 'a) list" where
  "orderedPairs [] = []"
| "orderedPairs (x # xs) = map (Pair x) xs @ orderedPairs xs"

definition conflictView ::
  "RuleConflict \<Rightarrow> ProcessedRule \<times> ProcessedRule \<times> ConflictType \<times> Severity" where
  "conflictView c = (rc_primary c, rc_conflicting c, rc_conflictType c, rc_severity c)"

definition conflictOfPair ::
  "ProcessedRule \<times> ProcessedRule
    \<Rightarrow> (ProcessedRule \<times> ProcessedRule \<times> ConflictType \<times> Severity) list" where
  "conflictOfPair p =
     (case detectConflictBetweenRules (fst p) (snd p) of
        None \<Rightarrow> []
      | Some (conflictType, severity) \<Rightarrow> [(fst p, snd p, conflictType, severity)])"


text \<open>
  The rule name or the collection name contains \<open>deny\<close> or \<open>block\<close>, ignoring case.
\<close>

definition mentionsDeny :: "ProcessedRule \<Rightarrow> bool" where
  "mentionsDeny rule =
     (sublist ''deny'' (toLowerCase (pr_name rule)) \<or>
      sublist ''block'' (toLowerCase (pr_name rule)) \<or>
      sublist ''deny'' (toLowerCase (pr_collectionName rule)) \<or>
      sublist ''block'' (toLowerCase (pr_collectionName rule)))"

text \<open>
  A policy with two network rules of identical addressing, one named as an allow rule
  and one as a deny rule, and its processed rules.
\<close>

definition webPolicy :: FirewallPolicy where
  "webPolicy =
     \<lparr> pol_name = ''web-policy'',
       pol_ruleCollectionGroups =
         [\<lparr> grp_name = ''WebGroup'', grp_priority = 300,
            grp_ruleCollections =
              [filterCollection ''WebRules'' 100 ''Allow''
                 [networkRule ''AllowWeb'' [''TCP''] [''10.0.0.0/8''] [''*''] [''443''],
                  networkRule ''DenyWeb'' [''TCP''] [''10.0.0.0/8''] [''*''] [''443'']]] \<rparr>] \<rparr>"

definition webRules :: "ProcessedRule list" where
  "webRules = getAllRulesFlat (processFirewallPolicy webPolicy None)"



text \<open>
  Two network rules that differ only in their source addresses, which repeat an address:
  \<open>[a, a, b]\<close> against \<open>[a, b, b]\<close>.
\<close>

definition repeatedAddressPolicy :: FirewallPolicy where
  "repeatedAddressPolicy =
     \<lparr> pol_name = ''repeated-address-policy'',
       pol_ruleCollectionGroups =
         [\<lparr> grp_name = ''Group'', grp_priority = 300,
            grp_ruleCollections =
              [filterCollection ''Rules'' 100 ''Allow''
                 [networkRule ''AllowFirst'' [''TCP'']
                    [''10.0.0.1'', ''10.0.0.1'', ''10.0.0.2''] [''*''] [''443''],
                  networkRule ''AllowSecond'' [''TCP'']
                    [''10.0.0.1'', ''10.0.0.2'', ''10.0.0.2''] [''*''] [''443'']]] \<rparr>] \<rparr>"

definition repeatedAddressRules :: "ProcessedRule list" where
  "repeatedAddressRules = getAllRulesFlat (processFirewallPolicy repeatedAddressPolicy None)"

text \<open>
  Two strings differ only by case and surrounding white space when their trimmed forms
  agree up to case, and only by surrounding white space when their trimmed forms are
  equal. Two lists are the same up to order and a relation \<open>R\<close> on their elements when
  some rearrangement of the second is related to the first element by element.
\<close>

definition caseSpaceVariant :: "string \<Rightarrow> string \<Rightarrow> bool" where
  "caseSpaceVariant s t \<longleftrightarrow> toLowerCase (trim s) = toLowerCase (trim t)"

definition spaceVariant :: "string \<Rightarrow> string \<Rightarrow> bool" where
  "spaceVariant s t \<longleftrightarrow> trim s = trim t"

definition sameUpToOrder :: "(string \<Rightarrow> string \<Rightarrow> bool) \<Rightarrow> string list \<Rightarrow> string list \<Rightarrow> bool" where
  "sameUpToOrder R xs ys \<longleftrightarrow> (\<exists>zs. mset zs = mset ys \<and> list_all2 R xs zs)"

text \<open>Two network rules that differ only in the case of their destination port.\<close>

definition portCasePolicy :: FirewallPolicy where
  "portCasePolicy =
     \<lparr> pol_name = ''port-case-policy'',
       pol_ruleCollectionGroups =
         [\<lparr> grp_name = ''Group'', grp_priority = 300,
            grp_ruleCollections =
              [filterCollection ''Rules'' 100 ''Allow''
                 [networkRule ''Web'' [''TCP''] [''10.0.0.1''] [''*''] [''HTTP''],
                  networkRule ''Web'' [''TCP''] [''10.0.0.1''] [''*''] [''http'']]] \<rparr>] \<rparr>"

definition portCaseRules :: "ProcessedRule list" where
  "portCaseRules = getAllRulesFlat (processFirewallPolicy portCasePolicy None)"

text \<open>
  Two network rules that differ by case and white space in addresses and protocols, by
  white space in ports, and by the order of every list.
\<close>

definition variantPolicy :: FirewallPolicy where
  "variantPolicy =
     \<lparr> pol_name = ''variant-policy'',
       pol_ruleCollectionGroups =
         [\<lparr> grp_name = ''Group'', grp_priority = 300,
            grp_ruleCollections =
              [filterCollection ''Rules'' 100 ''Allow''
                 [networkRule ''First'' [''TCP'', ''udp''] [''10.0.0.1'', ''VNET-A'']
                    [''Storage'', ''10.1.0.0/16''] ['' 443'', ''80''],
                  networkRule ''Second'' [''UDP '', ''tcp''] [''vnet-a '', ''10.0.0.1'']
                    [''10.1.0.0/16'', '' storage''] [''80'', ''443 '']]] \<rparr>] \<rparr>"

definition variantRules :: "ProcessedRule list" where
  "variantRules = getAllRulesFlat (processFirewallPolicy variantPolicy None)"

definition webAnalysis :: RuleAnalysis where
  "webAnalysis = analyzeRules (processFirewallPolicy webPolicy None)"

text \<open>A group with a NAT rule and an application rule and no network rule.\<close>

definition natAppPolicy :: FirewallPolicy where
  "natAppPolicy =
     \<lparr> pol_name = ''nat-app-policy'',
       pol_ruleCollectionGroups =
         [\<lparr> grp_name = ''Group'', grp_priority = 300,
            grp_ruleCollections =
              [natCollection ''DNATRules'' 100
                 [natRule ''WebServerNAT'' ''10.0.1.10'' ''80'' [''TCP''] [''*'']
                    [''203.0.113.10''] [''8080'']],
               filterCollection ''ApplicationRules'' 300 ''Allow''
                 [applicationRule ''AllowMicrosoft'' [''10.0.0.0/8'']
                    [''*.microsoft.com''] [(''Https'', 443)]]] \<rparr>] \<rparr>"











section \<open>Properties of the ordering engine\<close>

lemma processRule_fields [simp]:
  "pr_processingOrder (processRule gn gp ip cat c r i ord) = ord"
  "pr_ruleCategory (processRule gn gp ip cat c r i ord) = cat"
  "pr_ruleType (processRule gn gp ip cat c r i ord) = rule_ruleType r"
  "pr_isParentPolicy (processRule gn gp ip cat c r i ord) = ip"
  "pr_name (processRule gn gp ip cat c r i ord) = rule_name r"
  "pr_collectionName (processRule gn gp ip cat c r i ord) = coll_name c"
  "pr_collectionGroupName (processRule gn gp ip cat c r i ord) = gn"
  by (simp_all add: processRule_def copyCommon_def copyTypeSpecific_def baseProcessedRule_def)

lemma processRelevantRules_Cons:
  "processRelevantRules gn gp ip cat c (r # rs) i cur =
     (processRule gn gp ip cat c r i cur # fst (processRelevantRules gn gp ip cat c rs (Suc i) (cur + 1)),
      snd (processRelevantRules gn gp ip cat c rs (Suc i) (cur + 1)))"
  by (simp add: Let_def split: prod.splits)

declare processRelevantRules.simps(2) [simp del]

lemma processRelevantRules_snd:
  "snd (processRelevantRules gn gp ip cat c rs i cur) = cur + int (length rs)"
  by (induction rs arbitrary: i cur) (simp_all add: processRelevantRules_Cons)

lemma processRelevantRules_length:
  "length (fst (processRelevantRules gn gp ip cat c rs i cur)) = length rs"
  by (induction rs arbitrary: i cur) (simp_all add: processRelevantRules_Cons)

lemma processRelevantRules_member:
  "r \<in> set (fst (processRelevantRules gn gp ip cat c rs i cur)) \<Longrightarrow>
     cur \<le> pr_processingOrder r \<and> pr_ruleCategory r = cat \<and> pr_isParentPolicy r = ip
     \<and> pr_ruleType r \<in> rule_ruleType ` set rs"
proof (induction rs arbitrary: i cur)
  case Nil
  then show ?case by simp
next
  case (Cons a rs)
  from Cons.prems have "r = processRule gn gp ip cat c a i cur
      \<or> r \<in> set (fst (processRelevantRules gn gp ip cat c rs (Suc i) (cur + 1)))"
    by (simp add: processRelevantRules_Cons)
  then show ?case
  proof
    assume "r = processRule gn gp ip cat c a i cur"
    then show ?thesis by simp
  next
    assume "r \<in> set (fst (processRelevantRules gn gp ip cat c rs (Suc i) (cur + 1)))"
    from Cons.IH[OF this] show ?thesis by auto
  qed
qed

lemma processRelevantRules_first:
  "fst (processRelevantRules gn gp ip cat c rs i cur) = r # rest \<Longrightarrow> pr_processingOrder r = cur"
  by (cases rs) (auto simp add: processRelevantRules_Cons)

lemma processCollection_rules:
  "pc_processedRules (fst (processCollection gn gp ip cat c cur)) =
     fst (processRelevantRules gn gp ip cat c (filter (isRelevant cat) (coll_rules c)) 0 cur)"
  by (simp add: processCollection_def Let_def case_prod_beta)

lemma processCollection_snd:
  "snd (processCollection gn gp ip cat c cur) =
     cur + int (length (filter (isRelevant cat) (coll_rules c)))"
  by (simp add: processCollection_def Let_def case_prod_beta processRelevantRules_snd)

lemma processSortedCollections_Cons:
  "processSortedCollections gn gp ip cat (c # cs) cur =
     fst (processCollection gn gp ip cat c cur)
       # processSortedCollections gn gp ip cat cs (snd (processCollection gn gp ip cat c cur))"
  by (simp add: Let_def case_prod_beta)

declare processSortedCollections.simps(2) [simp del]

lemma isRelevant_kind: "isRelevant cat r \<longleftrightarrow> rule_ruleType r = categoryKind cat"
  by (cases cat) simp_all

lemma processSortedCollections_member:
  "r \<in> set (rulesOfCollections (processSortedCollections gn gp ip cat cs cur)) \<Longrightarrow>
     cur \<le> pr_processingOrder r \<and> pr_ruleCategory r = cat \<and> pr_isParentPolicy r = ip
     \<and> pr_ruleType r = categoryKind cat"
proof (induction cs arbitrary: cur)
  case Nil
  then show ?case by (simp add: rulesOfCollections_def)
next
  case (Cons c cs)
  let ?cur' = "snd (processCollection gn gp ip cat c cur)"
  from Cons.prems have
    "r \<in> set (pc_processedRules (fst (processCollection gn gp ip cat c cur)))
      \<or> r \<in> set (rulesOfCollections (processSortedCollections gn gp ip cat cs ?cur'))"
    by (simp add: processSortedCollections_Cons rulesOfCollections_def)
  then show ?case
  proof
    assume "r \<in> set (pc_processedRules (fst (processCollection gn gp ip cat c cur)))"
    then have "r \<in> set (fst (processRelevantRules gn gp ip cat c
                  (filter (isRelevant cat) (coll_rules c)) 0 cur))"
      by (simp add: processCollection_rules)
    from processRelevantRules_member[OF this] show ?thesis
      by (auto simp add: isRelevant_kind)
  next
    assume "r \<in> set (rulesOfCollections (processSortedCollections gn gp ip cat cs ?cur'))"
    from Cons.IH[OF this] have "?cur' \<le> pr_processingOrder r" and
      rest: "pr_ruleCategory r = cat \<and> pr_isParentPolicy r = ip \<and> pr_ruleType r = categoryKind cat"
      by simp_all
    moreover have "cur \<le> ?cur'" by (simp add: processCollection_snd)
    ultimately show ?thesis by simp
  qed
qed

lemma foldl_maxOrderStep_ge: "m \<le> foldl maxOrderStep m rs"
proof (induction rs arbitrary: m)
  case Nil
  then show ?case by simp
next
  case (Cons a rs)
  have "m \<le> maxOrderStep m a" by (simp add: maxOrderStep_def)
  also have "\<dots> \<le> foldl maxOrderStep (maxOrderStep m a) rs" by (rule Cons.IH)
  finally show ?case by simp
qed

lemma foldl_maxOrderStep_member:
  "r \<in> set rs \<Longrightarrow> pr_processingOrder r \<le> foldl maxOrderStep m rs"
proof (induction rs arbitrary: m)
  case Nil
  then show ?case by simp
next
  case (Cons a rs)
  show ?case
  proof (cases "r = a")
    case True
    have "pr_processingOrder a \<le> maxOrderStep m a" by (simp add: maxOrderStep_def)
    also have "\<dots> \<le> foldl maxOrderStep (maxOrderStep m a) rs" by (rule foldl_maxOrderStep_ge)
    finally show ?thesis using True by simp
  next
    case False
    with Cons.prems have "r \<in> set rs" by simp
    from Cons.IH[OF this] show ?thesis by simp
  qed
qed

lemma maxOver_ge: "m \<le> maxOver m pcs"
proof (induction pcs arbitrary: m)
  case Nil
  then show ?case by (simp add: maxOver_def)
next
  case (Cons pc pcs)
  have "m \<le> foldl maxOrderStep m (pc_processedRules pc)" by (rule foldl_maxOrderStep_ge)
  also have "\<dots> \<le> maxOver (foldl maxOrderStep m (pc_processedRules pc)) pcs" by (rule Cons.IH)
  finally show ?case by (simp add: maxOver_def)
qed

lemma maxOver_member:
  "r \<in> set (rulesOfCollections pcs) \<Longrightarrow> pr_processingOrder r \<le> maxOver m pcs"
proof (induction pcs arbitrary: m)
  case Nil
  then show ?case by (simp add: rulesOfCollections_def)
next
  case (Cons pc pcs)
  from Cons.prems have "r \<in> set (pc_processedRules pc) \<or> r \<in> set (rulesOfCollections pcs)"
    by (simp add: rulesOfCollections_def)
  then show ?case
  proof
    assume "r \<in> set (pc_processedRules pc)"
    then have "pr_processingOrder r \<le> foldl maxOrderStep m (pc_processedRules pc)"
      by (rule foldl_maxOrderStep_member)
    also have "\<dots> \<le> maxOver (foldl maxOrderStep m (pc_processedRules pc)) pcs" by (rule maxOver_ge)
    finally show ?thesis by (simp add: maxOver_def)
  next
    assume "r \<in> set (rulesOfCollections pcs)"
    from Cons.IH[OF this] show ?thesis by (simp add: maxOver_def)
  qed
qed

lemma getMaxFromCollections_member:
  "r \<in> set (rulesOfCollections pcs) \<Longrightarrow>
     pr_processingOrder r \<le> getMaxProcessingOrderFromCollections pcs"
  using maxOver_member[of r pcs 0]
  by (simp add: getMaxProcessingOrderFromCollections_def maxOver_def)

lemma byType_member:
  "r \<in> set (rulesOfCollections (processRuleCollectionsByType cs cat gn gp ip start)) \<Longrightarrow>
     start \<le> pr_processingOrder r \<and> pr_ruleCategory r = cat \<and> pr_isParentPolicy r = ip
     \<and> pr_ruleType r = categoryKind cat"
  unfolding processRuleCollectionsByType_def by (rule processSortedCollections_member)

lemma rulesOfCollections_append:
  "rulesOfCollections (xs @ ys) = rulesOfCollections xs @ rulesOfCollections ys"
  by (simp add: rulesOfCollections_def)

lemma group_precedence:
  assumes r1: "r1 \<in> set (rulesOfGroup (processRuleCollectionGroup grp ip start))"
    and r2: "r2 \<in> set (rulesOfGroup (processRuleCollectionGroup grp ip start))"
  shows "(pr_ruleCategory r1 = DNAT \<and> pr_ruleCategory r2 = Network \<longrightarrow>
            pr_processingOrder r1 < pr_processingOrder r2)
       \<and> (pr_ruleCategory r1 = Network \<and> pr_ruleCategory r2 = Application \<longrightarrow>
            pr_processingOrder r1 < pr_processingOrder r2)"
proof -
  define D where "D = processRuleCollectionsByType
      (filter (hasRuleOfType ''NatRule'') (grp_ruleCollections grp)) DNAT (grp_name grp)
      (grp_priority grp) ip start"
  define N where "N = processRuleCollectionsByType
      (filter (hasRuleOfType ''NetworkRule'') (grp_ruleCollections grp)) Network (grp_name grp)
      (grp_priority grp) ip (getMaxProcessingOrderFromCollections D + 1)"
  define A where "A = processRuleCollectionsByType
      (filter (hasRuleOfType ''ApplicationRule'') (grp_ruleCollections grp)) Application
      (grp_name grp) (grp_priority grp) ip (getMaxProcessingOrderFromCollections N + 1)"
  have rules: "rulesOfGroup (processRuleCollectionGroup grp ip start)
      = rulesOfCollections D @ rulesOfCollections N @ rulesOfCollections A"
    by (simp add: rulesOfGroup_def processRuleCollectionGroup_def Let_def D_def N_def A_def
        rulesOfCollections_append)
  have inD: "pr_ruleCategory r = DNAT" if "r \<in> set (rulesOfCollections D)" for r
    using byType_member that unfolding D_def by blast
  have inN: "pr_ruleCategory r = Network
      \<and> getMaxProcessingOrderFromCollections D + 1 \<le> pr_processingOrder r"
    if "r \<in> set (rulesOfCollections N)" for r
    using byType_member that unfolding N_def by blast
  have inA: "pr_ruleCategory r = Application
      \<and> getMaxProcessingOrderFromCollections N + 1 \<le> pr_processingOrder r"
    if "r \<in> set (rulesOfCollections A)" for r
    using byType_member that unfolding A_def by blast
  have dn: "pr_processingOrder r1 < pr_processingOrder r2"
    if "pr_ruleCategory r1 = DNAT" "pr_ruleCategory r2 = Network"
  proof -
    from r1 rules that(1) inN inA have "r1 \<in> set (rulesOfCollections D)" by auto
    then have "pr_processingOrder r1 \<le> getMaxProcessingOrderFromCollections D"
      by (rule getMaxFromCollections_member)
    moreover from r2 rules that(2) inD inA have "r2 \<in> set (rulesOfCollections N)" by auto
    then have "getMaxProcessingOrderFromCollections D + 1 \<le> pr_processingOrder r2"
      using inN by blast
    ultimately show ?thesis by simp
  qed
  have na: "pr_processingOrder r1 < pr_processingOrder r2"
    if "pr_ruleCategory r1 = Network" "pr_ruleCategory r2 = Application"
  proof -
    from r1 rules that(1) inD inA have "r1 \<in> set (rulesOfCollections N)" by auto
    then have "pr_processingOrder r1 \<le> getMaxProcessingOrderFromCollections N"
      by (rule getMaxFromCollections_member)
    moreover from r2 rules that(2) inD inN have "r2 \<in> set (rulesOfCollections A)" by auto
    then have "getMaxProcessingOrderFromCollections N + 1 \<le> pr_processingOrder r2"
      using inA by blast
    ultimately show ?thesis by simp
  qed
  from dn na show ?thesis by blast
qed

lemma processGroups_member:
  "g \<in> set (processGroups gs n) \<Longrightarrow>
     \<exists>grp ip start. (grp, ip) \<in> set gs \<and> g = processRuleCollectionGroup grp ip start"
proof (induction gs arbitrary: n)
  case Nil
  then show ?case by simp
next
  case (Cons a gs)
  obtain grp ip where a: "a = (grp, ip)" by (cases a)
  from Cons.prems a have "g = processRuleCollectionGroup grp ip n
     \<or> g \<in> set (processGroups gs (getMaxProcessingOrder (processRuleCollectionGroup grp ip n) + 1))"
    by (simp add: Let_def)
  then show ?case
  proof
    assume "g = processRuleCollectionGroup grp ip n"
    with a show ?thesis by auto
  next
    assume "g \<in> set (processGroups gs (getMaxProcessingOrder (processRuleCollectionGroup grp ip n) + 1))"
    from Cons.IH[OF this] show ?thesis by auto
  qed
qed

text \<open>
  Claim C3 (category precedence): in every processed group of the output of
  \<open>processFirewallPolicy\<close>, every DNAT rule has a smaller processing order than every
  Network rule of the group, and every Network rule a smaller one than every Application
  rule of the group.
\<close>

theorem category_precedence:
  assumes "g \<in> set (processFirewallPolicy policy parentPolicy)"
    and "r1 \<in> set (rulesOfGroup g)" and "r2 \<in> set (rulesOfGroup g)"
  shows "(pr_ruleCategory r1 = DNAT \<and> pr_ruleCategory r2 = Network \<longrightarrow>
            pr_processingOrder r1 < pr_processingOrder r2)
       \<and> (pr_ruleCategory r1 = Network \<and> pr_ruleCategory r2 = Application \<longrightarrow>
            pr_processingOrder r1 < pr_processingOrder r2)"
proof -
  from assms(1) obtain grp ip start where "g = processRuleCollectionGroup grp ip start"
    unfolding processFirewallPolicy_def by (blast dest: processGroups_member)
  with assms(2,3) show ?thesis by (simp add: group_precedence)
qed

text \<open>The first group of scenario B has rules of all three categories.\<close>

theorem category_precedence_witness:
  "processFirewallPolicy scenarioB None ! 0 \<in> set (processFirewallPolicy scenarioB None)
   \<and> pr_ruleCategory (rulesOfGroup (processFirewallPolicy scenarioB None ! 0) ! 0) = DNAT
   \<and> pr_ruleCategory (rulesOfGroup (processFirewallPolicy scenarioB None ! 0) ! 1) = Network
   \<and> pr_ruleCategory (rulesOfGroup (processFirewallPolicy scenarioB None ! 0) ! 3) = Application
   \<and> pr_processingOrder (rulesOfGroup (processFirewallPolicy scenarioB None ! 0) ! 0)
       < pr_processingOrder (rulesOfGroup (processFirewallPolicy scenarioB None ! 0) ! 1)
   \<and> pr_processingOrder (rulesOfGroup (processFirewallPolicy scenarioB None ! 0) ! 1)
       < pr_processingOrder (rulesOfGroup (processFirewallPolicy scenarioB None ! 0) ! 3)"
proof -
  let ?g = "processFirewallPolicy scenarioB None ! 0"
  have len: "length (processFirewallPolicy scenarioB None) = 2" by code_simp
  have g: "?g \<in> set (processFirewallPolicy scenarioB None)" by (rule nth_mem) (simp add: len)
  have lenr: "length (rulesOfGroup ?g) = 4" by code_simp
  have r0: "rulesOfGroup ?g ! 0 \<in> set (rulesOfGroup ?g)" by (rule nth_mem) (simp add: lenr)
  have r1: "rulesOfGroup ?g ! 1 \<in> set (rulesOfGroup ?g)" by (rule nth_mem) (simp add: lenr)
  have r3: "rulesOfGroup ?g ! 3 \<in> set (rulesOfGroup ?g)" by (rule nth_mem) (simp add: lenr)
  have c0: "pr_ruleCategory (rulesOfGroup ?g ! 0) = DNAT" by code_simp
  have c1: "pr_ruleCategory (rulesOfGroup ?g ! 1) = Network" by code_simp
  have c3: "pr_ruleCategory (rulesOfGroup ?g ! 3) = Application" by code_simp
  from category_precedence[OF g r0 r1] c0 c1
  have a: "pr_processingOrder (rulesOfGroup ?g ! 0) < pr_processingOrder (rulesOfGroup ?g ! 1)"
    by blast
  from category_precedence[OF g r1 r3] c1 c3
  have b: "pr_processingOrder (rulesOfGroup ?g ! 1) < pr_processingOrder (rulesOfGroup ?g ! 3)"
    by blast
  from g c0 c1 c3 a b show ?thesis by blast
qed

text \<open>
  The precedence of claim C3 relates neighbouring categories only. In a group without a
  network rule the start of the Application category is computed from the empty list of
  processed network collections, so the application rules restart at 1 and are not
  ordered after the DNAT rules of the group.
\<close>

theorem dnat_application_share_order:
  "map (\<lambda>r. (pr_name r, pr_ruleCategory r, pr_processingOrder r))
       (getAllRulesFlat (processFirewallPolicy natAppPolicy None))
     = [(''WebServerNAT'', DNAT, 1), (''AllowMicrosoft'', Application, 1)]"
  by code_simp

text \<open>
  Claim C1 (processing orders are unique and strictly increasing in emission order; one
  global counter that is never reused). The code does not keep that promise: after a
  group or a category that emitted no rule, \<^verbatim>\<open>getMaxProcessingOrder...(...) + 1\<close> is
  \<open>0 + 1\<close>, so the counter restarts at 1. In the policy \<open>twoGroups\<close> the second group
  has no NAT rule, its network rules restart at 1, and both rules of the output carry
  the processing order 1.
\<close>

theorem counter_reset_two_groups:
  "map (\<lambda>r. (pr_name r, pr_processingOrder r)) (getAllRulesFlat (processFirewallPolicy twoGroups None))
     = [(''AllowHTTP'', 1), (''AllowDNS'', 1)]"
  by code_simp

text \<open>
  Claim C2 (scenario B yields five processed rules in the order NAT, Network, Network,
  Application, Network(deny) with processing orders 1..5 and
  \<open>rulesByCategory = {DNAT:1, Network:3, Application:1}\<close>). The rules, their order
  of emission and the statistics are as claimed; the processing orders are
  \<open>1, 2, 3, 4, 1\<close>: the deny rule of the second group restarts at 1 (the defect of C1).
\<close>

theorem scenarioB_orders:
  "map (\<lambda>r. (pr_name r, pr_ruleCategory r, pr_processingOrder r))
       (getAllRulesFlat (processFirewallPolicy scenarioB None))
     = [(''WebServerNAT'', DNAT, 1), (''AllowWeb'', Network, 2), (''AllowDNS'', Network, 3),
        (''AllowMicrosoft'', Application, 4), (''DenyAll'', Network, 1)]
   \<and> map (ps_rulesByCategory (getProcessingStatistics (processFirewallPolicy scenarioB None)))
         [DNAT, Network, Application] = [1, 3, 1]"
  by code_simp

lemma single_concat:
  "concat (map f cs) = [r] \<Longrightarrow>
     \<exists>pre c post. cs = pre @ c # post \<and> f c = [r] \<and> (\<forall>x\<in>set pre. f x = [])
        \<and> (\<forall>x\<in>set post. f x = [])"
proof (induction cs)
  case Nil
  then show ?case by simp
next
  case (Cons a cs)
  from Cons.prems have "f a @ concat (map f cs) = [r]" by simp
  then consider (here) "f a = [r]" "concat (map f cs) = []"
    | (later) "f a = []" "concat (map f cs) = [r]"
    by (auto simp add: append_eq_Cons_conv)
  then show ?case
  proof cases
    case here
    then have "\<forall>x\<in>set cs. f x = []" by simp
    with here(1) have "a # cs = [] @ a # cs \<and> f a = [r] \<and> (\<forall>x\<in>set []. f x = [])
        \<and> (\<forall>x\<in>set cs. f x = [])" by simp
    then show ?thesis by blast
  next
    case later
    from Cons.IH[OF later(2)] obtain pre c post where
      "cs = pre @ c # post" "f c = [r]" "\<forall>x\<in>set pre. f x = []" "\<forall>x\<in>set post. f x = []"
      by blast
    with later(1) have "a # cs = (a # pre) @ c # post \<and> f c = [r]
        \<and> (\<forall>x\<in>set (a # pre). f x = []) \<and> (\<forall>x\<in>set post. f x = [])" by simp
    then show ?thesis by blast
  qed
qed

lemma filter_hasRuleOfType_single:
  assumes "cs = pre @ c # post" "coll_rules c = [r]"
    "\<forall>x\<in>set pre. coll_rules x = []" "\<forall>x\<in>set post. coll_rules x = []"
  shows "filter (hasRuleOfType t) cs = (if rule_ruleType r = t then [c] else [])"
proof -
  have "filter (hasRuleOfType t) pre = []" using assms(3)
    by (auto simp add: filter_empty_conv hasRuleOfType_def)
  moreover have "filter (hasRuleOfType t) post = []" using assms(4)
    by (auto simp add: filter_empty_conv hasRuleOfType_def)
  moreover have "hasRuleOfType t c \<longleftrightarrow> rule_ruleType r = t"
    by (simp add: hasRuleOfType_def assms(2))
  ultimately show ?thesis by (simp add: assms(1))
qed

lemma byType_Nil: "processRuleCollectionsByType [] cat gn gp ip start = []"
  by (simp add: processRuleCollectionsByType_def sortBy_def)

lemma byType_single:
  "coll_rules c = [r] \<Longrightarrow> rule_ruleType r = categoryKind cat \<Longrightarrow>
   rulesOfCollections (processRuleCollectionsByType [c] cat gn gp ip start)
     = [processRule gn gp ip cat c r 0 start]"
  by (simp add: processRuleCollectionsByType_def sortBy_def processSortedCollections_Cons
      rulesOfCollections_def processCollection_rules isRelevant_kind processRelevantRules_Cons)

lemma getMax_Nil: "getMaxProcessingOrderFromCollections [] = 0"
  by (simp add: getMaxProcessingOrderFromCollections_def)

lemma single_rule_group:
  assumes one: "concat (map coll_rules (grp_ruleCollections g)) = [r]"
    and kind: "rule_ruleType r = categoryKind cat"
  shows "\<exists>c. c \<in> set (grp_ruleCollections g) \<and>
     rulesOfGroup (processRuleCollectionGroup g ip start)
       = [processRule (grp_name g) (grp_priority g) ip cat c r 0 (if cat = DNAT then start else 1)]"
proof -
  from single_concat[OF one] obtain pre c post where
    cs: "grp_ruleCollections g = pre @ c # post" and c: "coll_rules c = [r]"
    and pre: "\<forall>x\<in>set pre. coll_rules x = []" and post: "\<forall>x\<in>set post. coll_rules x = []"
    by blast
  have f: "filter (hasRuleOfType t) (grp_ruleCollections g)
      = (if rule_ruleType r = t then [c] else [])" for t
    by (rule filter_hasRuleOfType_single[OF cs c pre post])
  have "rulesOfGroup (processRuleCollectionGroup g ip start)
       = [processRule (grp_name g) (grp_priority g) ip cat c r 0 (if cat = DNAT then start else 1)]"
  proof (cases cat)
    case DNAT
    with kind have k: "rule_ruleType r = ''NatRule''" by simp
    show ?thesis
      using byType_single[OF c, of DNAT "grp_name g" "grp_priority g" ip start]
      by (simp add: rulesOfGroup_def processRuleCollectionGroup_def Let_def f k DNAT byType_Nil
          rulesOfCollections_append)
  next
    case Network
    with kind have k: "rule_ruleType r = ''NetworkRule''" by simp
    show ?thesis
      using byType_single[OF c, of Network "grp_name g" "grp_priority g" ip 1]
      by (simp add: rulesOfGroup_def processRuleCollectionGroup_def Let_def f k Network byType_Nil
          getMax_Nil rulesOfCollections_append)
  next
    case Application
    with kind have k: "rule_ruleType r = ''ApplicationRule''" by simp
    show ?thesis
      using byType_single[OF c, of Application "grp_name g" "grp_priority g" ip 1]
      by (simp add: rulesOfGroup_def processRuleCollectionGroup_def Let_def f k Application
          byType_Nil getMax_Nil rulesOfCollections_append)
  qed
  moreover have "c \<in> set (grp_ruleCollections g)" by (simp add: cs)
  ultimately show ?thesis by blast
qed

lemma getAllRulesFlat_rulesOfGroup:
  "getAllRulesFlat groups = concat (map rulesOfGroup groups)"
  by (simp add: getAllRulesFlat_def rulesOfGroup_def[abs_def] rulesOfCollections_def)

lemma recognised_kind:
  "t \<in> {''NatRule'', ''NetworkRule'', ''ApplicationRule''} \<Longrightarrow> \<exists>cat. t = categoryKind cat"
  by (metis categoryKind.simps insertE singletonD)

text \<open>
  Claim C8 (parent precedence): when the parent policy and the child policy each hold one
  rule collection group whose collections hold one rule in all, the output consists of
  the parent's processed rule followed by the child's, and the processing order of the
  parent's rule is at most that of the child's rule, whatever the priorities of the two
  groups are. (The two orders can be equal: both are 1 unless the child's rule is a NAT
  rule.)
\<close>

theorem parent_precedence:
  assumes "pol_ruleCollectionGroups parent = [gp]" and "pol_ruleCollectionGroups child = [gc]"
    and "concat (map coll_rules (grp_ruleCollections gp)) = [rp]"
    and "concat (map coll_rules (grp_ruleCollections gc)) = [rc]"
    and "rule_ruleType rp \<in> {''NatRule'', ''NetworkRule'', ''ApplicationRule''}"
    and "rule_ruleType rc \<in> {''NatRule'', ''NetworkRule'', ''ApplicationRule''}"
  shows "\<exists>p c. getAllRulesFlat (processFirewallPolicy child (Some parent)) = [p, c]
           \<and> pr_isParentPolicy p \<and> pr_name p = rule_name rp
           \<and> \<not> pr_isParentPolicy c \<and> pr_name c = rule_name rc
           \<and> pr_processingOrder p \<le> pr_processingOrder c"
proof -
  from recognised_kind[OF assms(5)] obtain catp where kp: "rule_ruleType rp = categoryKind catp"
    by blast
  from recognised_kind[OF assms(6)] obtain catc where kc: "rule_ruleType rc = categoryKind catc"
    by blast
  let ?pg = "processRuleCollectionGroup gp True 1"
  let ?start = "getMaxProcessingOrder ?pg + 1"
  let ?cg = "processRuleCollectionGroup gc False ?start"
  have sorted: "sortBy compareGroups (allGroups child (Some parent)) = [(gp, True), (gc, False)]"
    by (simp add: allGroups_def assms(1,2) sortBy_def compareGroups_def)
  have out: "processFirewallPolicy child (Some parent) = [?pg, ?cg]"
    by (simp add: processFirewallPolicy_def sorted Let_def)
  from single_rule_group[OF assms(3) kp, of True 1] obtain cp where
    p: "rulesOfGroup ?pg = [processRule (grp_name gp) (grp_priority gp) True catp cp rp 0 1]"
    by auto
  have "getMaxProcessingOrder ?pg = maxOver 0 (pg_processedCollections ?pg)"
    by (simp add: getMaxProcessingOrder_def maxOver_def)
  then have "0 \<le> getMaxProcessingOrder ?pg" by (simp add: maxOver_ge)
  then have start: "1 \<le> ?start" by simp
  from single_rule_group[OF assms(4) kc, of False ?start] obtain cc where
    c: "rulesOfGroup ?cg = [processRule (grp_name gc) (grp_priority gc) False catc cc rc 0
          (if catc = DNAT then ?start else 1)]"
    by auto
  let ?p = "processRule (grp_name gp) (grp_priority gp) True catp cp rp 0 1"
  let ?c = "processRule (grp_name gc) (grp_priority gc) False catc cc rc 0
          (if catc = DNAT then ?start else 1)"
  have "getAllRulesFlat (processFirewallPolicy child (Some parent)) = [?p, ?c]"
    by (simp add: getAllRulesFlat_rulesOfGroup out p c)
  moreover have "pr_processingOrder ?p \<le> pr_processingOrder ?c" using start by simp
  ultimately show ?thesis by (intro exI[of _ ?p] exI[of _ ?c]) simp
qed

text \<open>
  A parent group of priority 60000 before a child group of priority 200.
\<close>

theorem parent_precedence_witness:
  "\<exists>p c. getAllRulesFlat (processFirewallPolicy minimalPolicy (Some lateParent)) = [p, c]
           \<and> pr_isParentPolicy p \<and> pr_name p = ''ParentNAT''
           \<and> \<not> pr_isParentPolicy c \<and> pr_name c = ''AllowHTTP''
           \<and> pr_processingOrder p \<le> pr_processingOrder c"
proof -
  have h1: "pol_ruleCollectionGroups lateParent = [lateParentGroup]"
    by (simp add: lateParent_def)
  have h2: "pol_ruleCollectionGroups minimalPolicy = [minimalGroup]"
    by (simp add: minimalPolicy_def)
  have h3: "concat (map coll_rules (grp_ruleCollections lateParentGroup)) = [parentNat]"
    by (simp add: lateParentGroup_def natCollection_def)
  have h4: "concat (map coll_rules (grp_ruleCollections minimalGroup)) = [allowHTTP]"
    by (simp add: minimalGroup_def filterCollection_def)
  have h5: "rule_ruleType parentNat \<in> {''NatRule'', ''NetworkRule'', ''ApplicationRule''}"
    by (simp add: parentNat_def natRule_def)
  have h6: "rule_ruleType allowHTTP \<in> {''NatRule'', ''NetworkRule'', ''ApplicationRule''}"
    by (simp add: allowHTTP_def networkRule_def)
  have n1: "rule_name parentNat = ''ParentNAT''" by (simp add: parentNat_def natRule_def)
  have n2: "rule_name allowHTTP = ''AllowHTTP''" by (simp add: allowHTTP_def networkRule_def)
  from parent_precedence[OF h1 h2 h3 h4 h5 h6] show ?thesis by (simp add: n1 n2)
qed

lemma mset_insertBy: "mset (insertBy cmp x xs) = add_mset x (mset xs)"
  by (induction xs) simp_all

lemma mset_sortBy: "mset (sortBy cmp xs) = mset xs"
  by (induction xs) (simp_all add: sortBy_def mset_insertBy)

lemma mset_concat_map:
  "mset (concat (map f xs)) = sum_mset (image_mset (\<lambda>x. mset (f x)) (mset xs))"
  by (induction xs) simp_all

lemma mset_concat_map_perm:
  "mset xs = mset ys \<Longrightarrow> mset (concat (map f xs)) = mset (concat (map f ys))"
  by (simp add: mset_concat_map)

lemma concat_map_filter_irrelevant:
  "(\<And>x. \<not> P x \<Longrightarrow> f x = []) \<Longrightarrow> concat (map f (filter P xs)) = concat (map f xs)"
  by (induction xs) simp_all

lemma processRelevantRules_keys:
  "map processedKey (fst (processRelevantRules gn gp ip cat c rs i cur)) = map (ruleKey gn c) rs"
  by (induction rs arbitrary: i cur)
     (simp_all add: processRelevantRules_Cons processedKey_def ruleKey_def)

lemma processCollection_keys:
  "map processedKey (pc_processedRules (fst (processCollection gn gp ip cat c cur)))
     = keysOfCollection (isRelevant cat) gn c"
  by (simp add: processCollection_rules processRelevantRules_keys keysOfCollection_def)

lemma processSortedCollections_keys:
  "map processedKey (rulesOfCollections (processSortedCollections gn gp ip cat cs cur))
     = concat (map (keysOfCollection (isRelevant cat) gn) cs)"
proof (induction cs arbitrary: cur)
  case Nil
  then show ?case by (simp add: rulesOfCollections_def)
next
  case (Cons c cs)
  have "map processedKey (rulesOfCollections (processSortedCollections gn gp ip cat (c # cs) cur))
     = map processedKey (pc_processedRules (fst (processCollection gn gp ip cat c cur)))
       @ map processedKey (rulesOfCollections (processSortedCollections gn gp ip cat cs
            (snd (processCollection gn gp ip cat c cur))))"
    by (simp add: processSortedCollections_Cons rulesOfCollections_def)
  also have "\<dots> = keysOfCollection (isRelevant cat) gn c
       @ concat (map (keysOfCollection (isRelevant cat) gn) cs)"
    by (simp add: Cons.IH processCollection_keys)
  finally show ?case by simp
qed

lemma hasRuleOfType_irrelevant:
  "\<not> hasRuleOfType (categoryKind cat) c \<Longrightarrow> keysOfCollection (isRelevant cat) gn c = []"
  by (auto simp add: hasRuleOfType_def keysOfCollection_def isRelevant_kind list_ex_iff
      filter_empty_conv)

lemma byType_keys:
  "mset (map processedKey (rulesOfCollections
      (processRuleCollectionsByType (filter (hasRuleOfType (categoryKind cat)) cs) cat gn gp ip start)))
     = mset (concat (map (keysOfCollection (isRelevant cat) gn) cs))"
proof -
  let ?f = "keysOfCollection (isRelevant cat) gn"
  let ?fs = "filter (hasRuleOfType (categoryKind cat)) cs"
  have "mset (concat (map ?f (sortBy compareCollections ?fs))) = mset (concat (map ?f ?fs))"
    by (rule mset_concat_map_perm) (rule mset_sortBy)
  also have "concat (map ?f ?fs) = concat (map ?f cs)"
    by (rule concat_map_filter_irrelevant) (rule hasRuleOfType_irrelevant)
  finally show ?thesis
    by (simp add: processRuleCollectionsByType_def processSortedCollections_keys)
qed

lemma recognised_split:
  "mset (filter recognisedKind rs)
     = mset (filter (isRelevant DNAT) rs) + mset (filter (isRelevant Network) rs)
       + mset (filter (isRelevant Application) rs)"
  by (induction rs) (auto simp add: recognisedKind_def)

lemma keysOfCollection_split:
  "mset (keysOfCollection recognisedKind gn c)
     = mset (keysOfCollection (isRelevant DNAT) gn c)
       + mset (keysOfCollection (isRelevant Network) gn c)
       + mset (keysOfCollection (isRelevant Application) gn c)"
proof -
  have "mset (keysOfCollection recognisedKind gn c)
      = image_mset (ruleKey gn c) (mset (filter recognisedKind (coll_rules c)))"
    by (simp add: keysOfCollection_def)
  also have "\<dots> = image_mset (ruleKey gn c) (mset (filter (isRelevant DNAT) (coll_rules c))
       + mset (filter (isRelevant Network) (coll_rules c))
       + mset (filter (isRelevant Application) (coll_rules c)))"
    by (simp only: recognised_split)
  finally show ?thesis by (simp add: keysOfCollection_def del: isRelevant.simps)
qed

lemma keysOfCollections_split:
  "mset (concat (map (keysOfCollection recognisedKind gn) cs))
     = mset (concat (map (keysOfCollection (isRelevant DNAT) gn) cs))
       + mset (concat (map (keysOfCollection (isRelevant Network) gn) cs))
       + mset (concat (map (keysOfCollection (isRelevant Application) gn) cs))"
  by (induction cs) (simp_all add: keysOfCollection_split del: isRelevant.simps)

lemma group_keys:
  "mset (map processedKey (rulesOfGroup (processRuleCollectionGroup grp ip start)))
     = mset (keysOfGroup recognisedKind grp)"
proof -
  have "mset (map processedKey (rulesOfGroup (processRuleCollectionGroup grp ip start)))
     = mset (concat (map (keysOfCollection (isRelevant DNAT) (grp_name grp)) (grp_ruleCollections grp)))
       + mset (concat (map (keysOfCollection (isRelevant Network) (grp_name grp)) (grp_ruleCollections grp)))
       + mset (concat (map (keysOfCollection (isRelevant Application) (grp_name grp)) (grp_ruleCollections grp)))"
    using byType_keys[of DNAT] byType_keys[of Network] byType_keys[of Application]
    by (simp add: rulesOfGroup_def processRuleCollectionGroup_def Let_def rulesOfCollections_append
        del: isRelevant.simps)
  then show ?thesis by (simp add: keysOfGroup_def keysOfCollections_split del: isRelevant.simps)
qed

lemma processGroups_keys:
  "mset (map processedKey (getAllRulesFlat (processGroups gs n)))
     = mset (concat (map (\<lambda>g. keysOfGroup recognisedKind (fst g)) gs))"
proof (induction gs arbitrary: n)
  case Nil
  then show ?case by (simp add: getAllRulesFlat_rulesOfGroup)
next
  case (Cons a gs)
  obtain grp ip where a: "a = (grp, ip)" by (cases a)
  show ?case
    using Cons.IH[of "getMaxProcessingOrder (processRuleCollectionGroup grp ip n) + 1"]
    by (simp add: a Let_def getAllRulesFlat_rulesOfGroup group_keys del: mset_map)
qed

text \<open>
  Claim C4 (a rule of an unrecognised kind makes \<open>processFirewallPolicy\<close> fail fast; it is
  never silently skipped). The source has no \<^verbatim>\<open>throw\<close> on any path of
  \<^verbatim>\<open>processFirewallPolicy\<close>: the bucket tests and the category filter compare
  \<^verbatim>\<open>ruleType\<close> with the three declared kinds and pass over any other rule. In
  \<open>futurePolicy\<close> the rule of kind \<open>FutureRule\<close> is in the input, the function returns
  its one processed group, and the only processed rule is the network rule.
\<close>

theorem unknown_kind_skipped:
  "map rule_ruleType
       (concat (map coll_rules (concat (map grp_ruleCollections
          (pol_ruleCollectionGroups futurePolicy)))))
     = [''FutureRule'', ''NetworkRule'']
   \<and> map pg_name (processFirewallPolicy futurePolicy None) = [''Group'']
   \<and> map (\<lambda>r. (pr_name r, pr_ruleType r, pr_processingOrder r))
        (getAllRulesFlat (processFirewallPolicy futurePolicy None))
     = [(''AllowHTTP'', ''NetworkRule'', 1)]"
  by code_simp

text \<open>
  Claim C4 as amended: \<open>processFirewallPolicy\<close> raises no error on any policy (it is a
  total function). It skips the rules of unrecognised kinds silently and processes every
  rule of a declared kind exactly once: the processed rules of the output, identified by
  group name, collection name, rule name and kind, are up to order the rules of the
  three declared kinds of the parent's and the child's groups.
\<close>

theorem processed_rules_are_recognised_rules:
  "mset (map processedKey (getAllRulesFlat (processFirewallPolicy policy parentPolicy)))
     = mset (recognisedRules policy parentPolicy)"
proof -
  let ?f = "\<lambda>g. keysOfGroup recognisedKind (fst g)"
  have "mset (concat (map ?f (sortBy compareGroups (allGroups policy parentPolicy))))
      = mset (concat (map ?f (allGroups policy parentPolicy)))"
    by (rule mset_concat_map_perm) (rule mset_sortBy)
  then show ?thesis
    by (simp add: processFirewallPolicy_def processGroups_keys recognisedRules_def del: mset_map)
qed

theorem processed_rules_are_recognised_rules_witness:
  "recognisedRules futurePolicy None
     = [(''Group'', ''Mixed'', ''AllowHTTP'', ''NetworkRule'')]
   \<and> mset (map processedKey (getAllRulesFlat (processFirewallPolicy futurePolicy None)))
     = {#(''Group'', ''Mixed'', ''AllowHTTP'', ''NetworkRule'')#}"
proof -
  have r: "recognisedRules futurePolicy None
      = [(''Group'', ''Mixed'', ''AllowHTTP'', ''NetworkRule'')]"
    by code_simp
  from processed_rules_are_recognised_rules[of futurePolicy None] r show ?thesis by simp
qed

section \<open>Properties of the analyzer\<close>

lemma conflictsWith_view:
  "map conflictView (fst (conflictsWith rule1 rest n)) = concat (map (\<lambda>r2. conflictOfPair (rule1, r2)) rest)"
  by (induction rest arbitrary: n)
     (simp_all add: conflictOfPair_def conflictView_def case_prod_beta Let_def split: option.splits)

lemma conflictLoop_view:
  "map conflictView (conflictLoop rules n) = concat (map conflictOfPair (orderedPairs rules))"
  by (induction rules arbitrary: n)
     (simp_all add: case_prod_beta Let_def conflictsWith_view comp_def)

lemma findRuleConflicts_view:
  "map conflictView (findRuleConflicts rules)
     = concat (map conflictOfPair (orderedPairs (sortBy compareOrder rules)))"
  by (simp add: findRuleConflicts_def conflictLoop_view)


lemma orderedPairs_nth:
  "i < j \<Longrightarrow> j < length xs \<Longrightarrow> (xs ! i, xs ! j) \<in> set (orderedPairs xs)"
proof (induction xs arbitrary: i j)
  case Nil
  then show ?case by simp
next
  case (Cons x xs)
  show ?case
  proof (cases i)
    case 0
    with Cons.prems obtain j' where "j = Suc j'" "j' < length xs" by (cases j) auto
    with 0 show ?thesis by simp
  next
    case (Suc i')
    with Cons.prems obtain j' where "j = Suc j'" "i' < j'" "j' < length xs" by (cases j) auto
    with Suc Cons.IH[of i' j'] show ?thesis by simp
  qed
qed

lemma conflict_complete:
  assumes "i < j" "j < length (sortBy compareOrder rules)"
    and "detectConflictBetweenRules (sortBy compareOrder rules ! i) (sortBy compareOrder rules ! j)
           = Some (t, s)"
  shows "\<exists>c\<in>set (findRuleConflicts rules).
           rc_primary c = sortBy compareOrder rules ! i
         \<and> rc_conflicting c = sortBy compareOrder rules ! j
         \<and> rc_conflictType c = t \<and> rc_severity c = s"
proof -
  let ?rs = "sortBy compareOrder rules"
  from orderedPairs_nth[OF assms(1,2)] have "(?rs ! i, ?rs ! j) \<in> set (orderedPairs ?rs)" .
  moreover have "(?rs ! i, ?rs ! j, t, s) \<in> set (conflictOfPair (?rs ! i, ?rs ! j))"
    by (simp add: conflictOfPair_def assms(3))
  ultimately have "(?rs ! i, ?rs ! j, t, s) \<in> set (map conflictView (findRuleConflicts rules))"
    unfolding findRuleConflicts_view by auto
  then show ?thesis by (auto simp add: conflictView_def)
qed











lemma startsWith_prefix: "startsWith s t \<longleftrightarrow> prefix t s"
  by (induction s t rule: startsWith.induct) auto

lemma stringIncludes_sublist: "stringIncludes s t \<longleftrightarrow> sublist t s"
  by (induction s) (simp_all add: startsWith_prefix sublist_Cons_right)

lemma getRuleAction_mentionsDeny:
  "getRuleAction rule = (if mentionsDeny rule then ''Deny'' else ''Allow'')"
  by (simp add: getRuleAction_def mentionsDeny_def Let_def stringIncludes_sublist)

lemma detect_allow_deny:
  assumes "pr_ruleType rule1 = ''NetworkRule''" "pr_ruleType rule2 = ''NetworkRule''"
    and "hasOverlappingTrafficPattern (generateRuleFingerprint rule1)
           (generateRuleFingerprint rule2)"
    and "getRuleAction rule1 \<noteq> getRuleAction rule2"
  shows "detectConflictBetweenRules rule1 rule2 = Some (allow_deny_conflict, high)"
  using assms by (simp add: detectConflictBetweenRules_def Let_def)

text \<open>
  Claim C9: the action of a rule is inferred from names: Deny when the lower-cased rule
  name or collection name contains \<open>deny\<close> or \<open>block\<close>, Allow otherwise; and every
  traffic-overlapping pair of two network rules (positions \<open>i < j\<close> of the rules sorted by
  processing order) whose inferred actions differ is reported by \<open>findRuleConflicts\<close> as
  an \<open>allow_deny_conflict\<close> of severity \<open>high\<close>.
\<close>

theorem allow_deny_conflict_reported:
  "getRuleAction rule = (if mentionsDeny rule then ''Deny'' else ''Allow'')
   \<and> (i < j \<and> j < length (sortBy compareOrder rules)
       \<and> pr_ruleType (sortBy compareOrder rules ! i) = ''NetworkRule''
       \<and> pr_ruleType (sortBy compareOrder rules ! j) = ''NetworkRule''
       \<and> hasOverlappingTrafficPattern (generateRuleFingerprint (sortBy compareOrder rules ! i))
            (generateRuleFingerprint (sortBy compareOrder rules ! j))
       \<and> getRuleAction (sortBy compareOrder rules ! i) \<noteq> getRuleAction (sortBy compareOrder rules ! j)
      \<longrightarrow> (\<exists>c\<in>set (findRuleConflicts rules).
             rc_primary c = sortBy compareOrder rules ! i
           \<and> rc_conflicting c = sortBy compareOrder rules ! j
           \<and> rc_conflictType c = allow_deny_conflict \<and> rc_severity c = high))"
proof (intro conjI impI)
  show "getRuleAction rule = (if mentionsDeny rule then ''Deny'' else ''Allow'')"
    by (rule getRuleAction_mentionsDeny)
next
  assume a: "i < j \<and> j < length (sortBy compareOrder rules)
       \<and> pr_ruleType (sortBy compareOrder rules ! i) = ''NetworkRule''
       \<and> pr_ruleType (sortBy compareOrder rules ! j) = ''NetworkRule''
       \<and> hasOverlappingTrafficPattern (generateRuleFingerprint (sortBy compareOrder rules ! i))
            (generateRuleFingerprint (sortBy compareOrder rules ! j))
       \<and> getRuleAction (sortBy compareOrder rules ! i) \<noteq> getRuleAction (sortBy compareOrder rules ! j)"
  then have "detectConflictBetweenRules (sortBy compareOrder rules ! i) (sortBy compareOrder rules ! j)
      = Some (allow_deny_conflict, high)"
    by (intro detect_allow_deny) simp_all
  with a show "\<exists>c\<in>set (findRuleConflicts rules).
             rc_primary c = sortBy compareOrder rules ! i
           \<and> rc_conflicting c = sortBy compareOrder rules ! j
           \<and> rc_conflictType c = allow_deny_conflict \<and> rc_severity c = high"
    by (intro conflict_complete) simp_all
qed

text \<open>\<open>AllowWeb\<close> against \<open>DenyWeb\<close> with identical addressing.\<close>

theorem allow_deny_conflict_reported_witness:
  "map pr_name (sortBy compareOrder webRules) = [''AllowWeb'', ''DenyWeb'']
   \<and> getRuleAction (sortBy compareOrder webRules ! 0) = ''Allow''
   \<and> getRuleAction (sortBy compareOrder webRules ! 1) = ''Deny''
   \<and> (\<exists>c\<in>set (findRuleConflicts webRules).
             rc_primary c = sortBy compareOrder webRules ! 0
           \<and> rc_conflicting c = sortBy compareOrder webRules ! 1
           \<and> rc_conflictType c = allow_deny_conflict \<and> rc_severity c = high)"
proof -
  let ?rs = "sortBy compareOrder webRules"
  have names: "map pr_name ?rs = [''AllowWeb'', ''DenyWeb'']" by code_simp
  have len: "length ?rs = 2" by code_simp
  have k0: "pr_ruleType (?rs ! 0) = ''NetworkRule''" by code_simp
  have k1: "pr_ruleType (?rs ! 1) = ''NetworkRule''" by code_simp
  have ov: "hasOverlappingTrafficPattern (generateRuleFingerprint (?rs ! 0))
              (generateRuleFingerprint (?rs ! 1))" by code_simp
  have a0: "getRuleAction (?rs ! 0) = ''Allow''" by code_simp
  have a1: "getRuleAction (?rs ! 1) = ''Deny''" by code_simp
  have hyp: "(0::nat) < 1 \<and> 1 < length ?rs
       \<and> pr_ruleType (?rs ! 0) = ''NetworkRule'' \<and> pr_ruleType (?rs ! 1) = ''NetworkRule''
       \<and> hasOverlappingTrafficPattern (generateRuleFingerprint (?rs ! 0))
            (generateRuleFingerprint (?rs ! 1))
       \<and> getRuleAction (?rs ! 0) \<noteq> getRuleAction (?rs ! 1)"
    using len k0 k1 ov a0 a1 by simp
  from allow_deny_conflict_reported[of _ 0 1 webRules] hyp
  have "\<exists>c\<in>set (findRuleConflicts webRules).
             rc_primary c = ?rs ! 0 \<and> rc_conflicting c = ?rs ! 1
           \<and> rc_conflictType c = allow_deny_conflict \<and> rc_severity c = high"
    by blast
  with names a0 a1 show ?thesis by blast
qed

text \<open>
  Claim C6 (a traffic-overlapping same-kind pair without allow/deny conflict is a
  \<open>priority_conflict\<close> exactly when the fingerprints are equal and the earlier order is
  smaller). \<^verbatim>\<open>arraysEqual\<close> (``check if two arrays are equal'') compares the lengths
  and tests that every element of the first array occurs in the second, which holds for
  \<open>[a, a, b]\<close> and \<open>[a, b, b]\<close>. The two rules of \<open>repeatedAddressPolicy\<close> have
  different fingerprints and are reported as a \<open>priority_conflict\<close> of severity
  \<open>medium\<close>, not as \<open>overlapping_rules\<close>.
\<close>

theorem repeated_address_priority_conflict:
  "map (\<lambda>r. (pr_name r, pr_processingOrder r, fp_sourceAddresses (generateRuleFingerprint r)))
       repeatedAddressRules
     = [(''AllowFirst'', 1, [''10.0.0.1'', ''10.0.0.1'', ''10.0.0.2'']),
        (''AllowSecond'', 2, [''10.0.0.1'', ''10.0.0.2'', ''10.0.0.2''])]
   \<and> generateRuleFingerprint (repeatedAddressRules ! 0)
       \<noteq> generateRuleFingerprint (repeatedAddressRules ! 1)
   \<and> map (\<lambda>c. (pr_name (rc_primary c), pr_name (rc_conflicting c), rc_conflictType c,
                 rc_severity c))
        (findRuleConflicts repeatedAddressRules)
     = [(''AllowFirst'', ''AllowSecond'', priority_conflict, medium)]"
  by code_simp

lemma isWhiteSpace_toLowerChar: "isWhiteSpace (toLowerChar c) = isWhiteSpace c"
  by (auto simp add: isWhiteSpace_def toLowerChar_def)

lemma dropWhile_toLowerCase:
  "dropWhile isWhiteSpace (toLowerCase s) = toLowerCase (dropWhile isWhiteSpace s)"
  by (simp add: toLowerCase_def dropWhile_map comp_def isWhiteSpace_toLowerChar)

lemma rev_toLowerCase: "rev (toLowerCase s) = toLowerCase (rev s)"
  by (simp add: toLowerCase_def rev_map)

lemma trim_toLowerCase: "trim (toLowerCase s) = toLowerCase (trim s)"
  by (simp add: trim_def dropWhile_toLowerCase rev_toLowerCase)

lemma list_all2_map_eq:
  "list_all2 R xs zs \<Longrightarrow> (\<And>s t. R s t \<Longrightarrow> f s = f t) \<Longrightarrow> map f xs = map f zs"
  by (induction rule: list_all2_induct) auto

lemma sortStrings_perm: "mset xs = mset ys \<Longrightarrow> sortStrings xs = sortStrings ys"
  unfolding sortStrings_def by (rule properties_for_sort) simp_all

lemma normalise_sameUpToOrder:
  assumes "sameUpToOrder R xs ys" and "\<And>s t. R s t \<Longrightarrow> f s = f t"
  shows "sortStrings (map f xs) = sortStrings (map f ys)"
proof -
  from assms(1) obtain zs where zs: "mset zs = mset ys" and rel: "list_all2 R xs zs"
    unfolding sameUpToOrder_def by blast
  from rel assms(2) have "map f xs = map f zs" by (rule list_all2_map_eq)
  moreover from zs have "mset (map f zs) = mset (map f ys)" by simp
  ultimately show ?thesis by (simp add: sortStrings_perm)
qed

lemma caseSpaceVariant_normal:
  "caseSpaceVariant s t \<Longrightarrow> trim (toLowerCase s) = trim (toLowerCase t)"
  by (simp add: caseSpaceVariant_def trim_toLowerCase)

text \<open>
  Claim C7 (the fingerprint lower-cases and trims every address, port, protocol and FQDN
  string, in particular each destination port; rules of one kind that differ only by
  case, surrounding white space or list order get the same fingerprint).
  \<^verbatim>\<open>normalizePorts\<close> trims and sorts but does not lower-case: the port \<open>HTTP\<close> stays
  \<open>HTTP\<close> in the fingerprint, and the two rules of \<open>portCasePolicy\<close>, which differ only
  in the case of that port, get different fingerprints.
\<close>

theorem port_case_distinguishes:
  "map pr_ruleType portCaseRules = [''NetworkRule'', ''NetworkRule'']
   \<and> map pr_destinationPorts portCaseRules = [Some [''HTTP''], Some [''http'']]
   \<and> toLowerCase ''HTTP'' = ''http''
   \<and> pr_sourceAddresses (portCaseRules ! 0) = pr_sourceAddresses (portCaseRules ! 1)
   \<and> pr_destinationAddresses (portCaseRules ! 0) = pr_destinationAddresses (portCaseRules ! 1)
   \<and> pr_ipProtocols (portCaseRules ! 0) = pr_ipProtocols (portCaseRules ! 1)
   \<and> pr_targetFqdns (portCaseRules ! 0) = pr_targetFqdns (portCaseRules ! 1)
   \<and> fp_destinationPorts (generateRuleFingerprint (portCaseRules ! 0)) = [''HTTP'']
   \<and> generateRuleFingerprint (portCaseRules ! 0) \<noteq> generateRuleFingerprint (portCaseRules ! 1)"
  by code_simp

text \<open>
  Claim C7 as amended: the fingerprint pairs the rule's kind with five sorted lists;
  source addresses, destination addresses, ip protocols and target FQDNs are lower-cased
  and trimmed, destination ports are trimmed only (each list of the fingerprint holds,
  with multiplicity, exactly the strings of the rule's list so normalised). Two rules of the same kind get the same fingerprint when their source
  addresses, destination addresses, ip protocols and target FQDNs differ only by case,
  surrounding white space and list order, and their destination ports differ only by
  surrounding white space and list order.
\<close>

theorem fingerprint_invariance:
  assumes "pr_ruleType r1 = pr_ruleType r2"
    and "sameUpToOrder caseSpaceVariant (orEmpty (pr_sourceAddresses r1))
           (orEmpty (pr_sourceAddresses r2))"
    and "sameUpToOrder caseSpaceVariant (orEmpty (pr_destinationAddresses r1))
           (orEmpty (pr_destinationAddresses r2))"
    and "sameUpToOrder spaceVariant (orEmpty (pr_destinationPorts r1))
           (orEmpty (pr_destinationPorts r2))"
    and "sameUpToOrder caseSpaceVariant (orEmpty (pr_ipProtocols r1))
           (orEmpty (pr_ipProtocols r2))"
    and "sameUpToOrder caseSpaceVariant (orEmpty (pr_targetFqdns r1))
           (orEmpty (pr_targetFqdns r2))"
  shows "generateRuleFingerprint r1 = generateRuleFingerprint r2
       \<and> fp_ruleType (generateRuleFingerprint r1) = pr_ruleType r1
       \<and> sorted (fp_sourceAddresses (generateRuleFingerprint r1))
       \<and> sorted (fp_destinationAddresses (generateRuleFingerprint r1))
       \<and> sorted (fp_destinationPorts (generateRuleFingerprint r1))
       \<and> sorted (fp_ipProtocols (generateRuleFingerprint r1))
       \<and> sorted (fp_targetFqdns (generateRuleFingerprint r1))
       \<and> mset (fp_destinationPorts (generateRuleFingerprint r1))
           = image_mset trim (mset (orEmpty (pr_destinationPorts r1)))
       \<and> mset (fp_sourceAddresses (generateRuleFingerprint r1))
           = image_mset (\<lambda>s. trim (toLowerCase s)) (mset (orEmpty (pr_sourceAddresses r1)))
       \<and> mset (fp_destinationAddresses (generateRuleFingerprint r1))
           = image_mset (\<lambda>s. trim (toLowerCase s)) (mset (orEmpty (pr_destinationAddresses r1)))
       \<and> mset (fp_ipProtocols (generateRuleFingerprint r1))
           = image_mset (\<lambda>s. trim (toLowerCase s)) (mset (orEmpty (pr_ipProtocols r1)))
       \<and> mset (fp_targetFqdns (generateRuleFingerprint r1))
           = image_mset (\<lambda>s. trim (toLowerCase s)) (mset (orEmpty (pr_targetFqdns r1)))"
proof -
  have "normalizeAddresses (orEmpty (pr_sourceAddresses r1))
      = normalizeAddresses (orEmpty (pr_sourceAddresses r2))"
    unfolding normalizeAddresses_def
    by (rule normalise_sameUpToOrder[OF assms(2)]) (rule caseSpaceVariant_normal)
  moreover have "normalizeAddresses (orEmpty (pr_destinationAddresses r1))
      = normalizeAddresses (orEmpty (pr_destinationAddresses r2))"
    unfolding normalizeAddresses_def
    by (rule normalise_sameUpToOrder[OF assms(3)]) (rule caseSpaceVariant_normal)
  moreover have "normalizePorts (orEmpty (pr_destinationPorts r1))
      = normalizePorts (orEmpty (pr_destinationPorts r2))"
    unfolding normalizePorts_def
    by (rule normalise_sameUpToOrder[OF assms(4)]) (simp add: spaceVariant_def)
  moreover have "normalizeProtocols (orEmpty (pr_ipProtocols r1))
      = normalizeProtocols (orEmpty (pr_ipProtocols r2))"
    unfolding normalizeProtocols_def
    by (rule normalise_sameUpToOrder[OF assms(5)]) (rule caseSpaceVariant_normal)
  moreover have "normalizeFqdns (orEmpty (pr_targetFqdns r1))
      = normalizeFqdns (orEmpty (pr_targetFqdns r2))"
    unfolding normalizeFqdns_def
    by (rule normalise_sameUpToOrder[OF assms(6)]) (rule caseSpaceVariant_normal)
  ultimately have same: "generateRuleFingerprint r1 = generateRuleFingerprint r2"
    by (simp add: generateRuleFingerprint_def assms(1))
  have shape: "fp_ruleType (generateRuleFingerprint r1) = pr_ruleType r1
       \<and> sorted (fp_sourceAddresses (generateRuleFingerprint r1))
       \<and> sorted (fp_destinationAddresses (generateRuleFingerprint r1))
       \<and> sorted (fp_destinationPorts (generateRuleFingerprint r1))
       \<and> sorted (fp_ipProtocols (generateRuleFingerprint r1))
       \<and> sorted (fp_targetFqdns (generateRuleFingerprint r1))
       \<and> mset (fp_destinationPorts (generateRuleFingerprint r1))
           = image_mset trim (mset (orEmpty (pr_destinationPorts r1)))
       \<and> mset (fp_sourceAddresses (generateRuleFingerprint r1))
           = image_mset (\<lambda>s. trim (toLowerCase s)) (mset (orEmpty (pr_sourceAddresses r1)))
       \<and> mset (fp_destinationAddresses (generateRuleFingerprint r1))
           = image_mset (\<lambda>s. trim (toLowerCase s)) (mset (orEmpty (pr_destinationAddresses r1)))
       \<and> mset (fp_ipProtocols (generateRuleFingerprint r1))
           = image_mset (\<lambda>s. trim (toLowerCase s)) (mset (orEmpty (pr_ipProtocols r1)))
       \<and> mset (fp_targetFqdns (generateRuleFingerprint r1))
           = image_mset (\<lambda>s. trim (toLowerCase s)) (mset (orEmpty (pr_targetFqdns r1)))"
    by (simp add: generateRuleFingerprint_def normalizeAddresses_def normalizePorts_def
        normalizeProtocols_def normalizeFqdns_def sortStrings_def)
  from same shape show ?thesis by (rule conjI)
qed


text \<open>The two rules of \<open>variantPolicy\<close>.\<close>

theorem fingerprint_invariance_witness:
  "map pr_sourceAddresses variantRules
     = [Some [''10.0.0.1'', ''VNET-A''], Some [''vnet-a '', ''10.0.0.1'']]
   \<and> map pr_destinationPorts variantRules = [Some ['' 443'', ''80''], Some [''80'', ''443 '']]
   \<and> generateRuleFingerprint (variantRules ! 0) = generateRuleFingerprint (variantRules ! 1)
   \<and> fp_destinationPorts (generateRuleFingerprint (variantRules ! 0)) = [''443'', ''80'']"
proof -
  let ?a = "variantRules ! 0" and ?b = "variantRules ! 1"
  have kind: "pr_ruleType ?a = pr_ruleType ?b" by code_simp
  have fa: "orEmpty (pr_sourceAddresses ?a) = [''10.0.0.1'', ''VNET-A'']"
    "orEmpty (pr_destinationAddresses ?a) = [''Storage'', ''10.1.0.0/16'']"
    "orEmpty (pr_destinationPorts ?a) = ['' 443'', ''80'']"
    "orEmpty (pr_ipProtocols ?a) = [''TCP'', ''udp'']"
    "orEmpty (pr_targetFqdns ?a) = []"
    by code_simp+
  have fb: "orEmpty (pr_sourceAddresses ?b) = [''vnet-a '', ''10.0.0.1'']"
    "orEmpty (pr_destinationAddresses ?b) = [''10.1.0.0/16'', '' storage'']"
    "orEmpty (pr_destinationPorts ?b) = [''80'', ''443 '']"
    "orEmpty (pr_ipProtocols ?b) = [''UDP '', ''tcp'']"
    "orEmpty (pr_targetFqdns ?b) = []"
    by code_simp+
  have v: "caseSpaceVariant ''10.0.0.1'' ''10.0.0.1''" "caseSpaceVariant ''VNET-A'' ''vnet-a ''"
    "caseSpaceVariant ''Storage'' '' storage''" "caseSpaceVariant ''10.1.0.0/16'' ''10.1.0.0/16''"
    "spaceVariant '' 443'' ''443 ''" "spaceVariant ''80'' ''80''"
    "caseSpaceVariant ''TCP'' ''tcp''" "caseSpaceVariant ''udp'' ''UDP ''"
    by code_simp+
  have src: "sameUpToOrder caseSpaceVariant (orEmpty (pr_sourceAddresses ?a))
      (orEmpty (pr_sourceAddresses ?b))"
    unfolding sameUpToOrder_def fa fb
    by (rule exI[of _ "[''10.0.0.1'', ''vnet-a '']"]) (simp add: v)
  have dst: "sameUpToOrder caseSpaceVariant (orEmpty (pr_destinationAddresses ?a))
      (orEmpty (pr_destinationAddresses ?b))"
    unfolding sameUpToOrder_def fa fb
    by (rule exI[of _ "['' storage'', ''10.1.0.0/16'']"]) (simp add: v)
  have ports: "sameUpToOrder spaceVariant (orEmpty (pr_destinationPorts ?a))
      (orEmpty (pr_destinationPorts ?b))"
    unfolding sameUpToOrder_def fa fb
    by (rule exI[of _ "[''443 '', ''80'']"]) (simp add: v)
  have protos: "sameUpToOrder caseSpaceVariant (orEmpty (pr_ipProtocols ?a))
      (orEmpty (pr_ipProtocols ?b))"
    unfolding sameUpToOrder_def fa fb
    by (rule exI[of _ "[''tcp'', ''UDP '']"]) (simp add: v)
  have fqdns: "sameUpToOrder caseSpaceVariant (orEmpty (pr_targetFqdns ?a))
      (orEmpty (pr_targetFqdns ?b))"
    unfolding sameUpToOrder_def fa fb by simp
  have inputs: "map pr_sourceAddresses variantRules
     = [Some [''10.0.0.1'', ''VNET-A''], Some [''vnet-a '', ''10.0.0.1'']]
   \<and> map pr_destinationPorts variantRules = [Some ['' 443'', ''80''], Some [''80'', ''443 '']]"
    by code_simp
  have p: "fp_destinationPorts (generateRuleFingerprint ?a) = [''443'', ''80'']" by code_simp
  from fingerprint_invariance[OF kind src dst ports protos fqdns] inputs p
  show ?thesis by blast
qed

lemma duplicateGroupsFrom_member:
  "g \<in> set (duplicateGroupsFrom m n) \<Longrightarrow> 2 \<le> length (dg_rules g)"
proof (induction m arbitrary: n)
  case Nil
  then show ?case by simp
next
  case (Cons a m)
  obtain fingerprint groupRules where a: "a = (fingerprint, groupRules)" by (cases a)
  show ?case
  proof (cases "length groupRules > 1")
    case True
    with Cons.prems a have "dg_rules g = groupRules \<or> g \<in> set (duplicateGroupsFrom m (n + 1))"
      by auto
    with True Cons.IH show ?thesis by auto
  next
    case False
    with Cons.prems a have "g \<in> set (duplicateGroupsFrom m n)" by simp
    with Cons.IH show ?thesis by blast
  qed
qed

lemma foldl_sum_lengths:
  "foldl (\<lambda>sum grp. sum + length (dg_rules grp)) a ds = a + sum_list (map (\<lambda>g. length (dg_rules g)) ds)"
  by (induction ds arbitrary: a) simp_all

lemma sum_list_at_least_two:
  "(\<And>g. g \<in> set ds \<Longrightarrow> 2 \<le> f g) \<Longrightarrow> 2 * length ds \<le> sum_list (map f ds)"
  for f :: "'a \<Rightarrow> nat"
proof (induction ds)
  case Nil
  then show ?case by simp
next
  case (Cons d ds)
  have "2 \<le> f d" by (rule Cons.prems) simp
  moreover have "2 * length ds \<le> sum_list (map f ds)" by (rule Cons.IH) (simp add: Cons.prems)
  ultimately show ?case by simp
qed

lemma setSize_card: "setSize xs = card (set xs)"
  by (simp add: setSize_def length_remdups_card_conv)

text \<open>
  Claim C10: the statistics of \<open>analyzeRules\<close> agree with the lists returned beside them:
  \<open>duplicateGroups\<close> and \<open>conflicts\<close> are the lengths of the two lists,
  \<open>duplicateRules\<close> is the sum of the sizes of the duplicate groups, each of which has at
  least two members (so \<open>duplicateRules \<ge> 2 * duplicateGroups\<close>), and
  \<open>conflictingRules\<close> is the number of distinct rule ids occurring as primary or
  conflicting rule of a conflict (so \<open>conflictingRules \<le> 2 * conflicts\<close>).
\<close>

theorem analysis_statistics_consistent:
  "st_duplicateGroups (ra_statistics (analyzeRules groups))
     = length (ra_duplicates (analyzeRules groups))
   \<and> st_conflicts (ra_statistics (analyzeRules groups))
     = length (ra_conflicts (analyzeRules groups))
   \<and> st_duplicateRules (ra_statistics (analyzeRules groups))
     = sum_list (map (\<lambda>g. length (dg_rules g)) (ra_duplicates (analyzeRules groups)))
   \<and> (\<forall>g\<in>set (ra_duplicates (analyzeRules groups)). 2 \<le> length (dg_rules g))
   \<and> 2 * st_duplicateGroups (ra_statistics (analyzeRules groups))
     \<le> st_duplicateRules (ra_statistics (analyzeRules groups))
   \<and> st_conflictingRules (ra_statistics (analyzeRules groups))
     = card ((\<lambda>c. pr_id (rc_primary c)) ` set (ra_conflicts (analyzeRules groups))
             \<union> (\<lambda>c. pr_id (rc_conflicting c)) ` set (ra_conflicts (analyzeRules groups)))
   \<and> st_conflictingRules (ra_statistics (analyzeRules groups))
     \<le> 2 * st_conflicts (ra_statistics (analyzeRules groups))"
proof -
  let ?rules = "getAllRulesFlat groups"
  let ?ds = "findDuplicateRules ?rules" and ?cs = "findRuleConflicts ?rules"
  let ?ids = "map (\<lambda>c. pr_id (rc_primary c)) ?cs @ map (\<lambda>c. pr_id (rc_conflicting c)) ?cs"
  have d: "ra_duplicates (analyzeRules groups) = ?ds"
    and c: "ra_conflicts (analyzeRules groups) = ?cs"
    and s1: "st_duplicateGroups (ra_statistics (analyzeRules groups)) = length ?ds"
    and s2: "st_conflicts (ra_statistics (analyzeRules groups)) = length ?cs"
    and s3: "st_duplicateRules (ra_statistics (analyzeRules groups))
        = sum_list (map (\<lambda>g. length (dg_rules g)) ?ds)"
    and s4: "st_conflictingRules (ra_statistics (analyzeRules groups)) = setSize ?ids"
    by (simp_all add: analyzeRules_def Let_def foldl_sum_lengths)
  have two: "2 \<le> length (dg_rules g)" if "g \<in> set ?ds" for g
    using that unfolding findDuplicateRules_def by (rule duplicateGroupsFrom_member)
  have bound: "2 * length ?ds \<le> sum_list (map (\<lambda>g. length (dg_rules g)) ?ds)"
    by (rule sum_list_at_least_two) (rule two)
  have "card (set ?ids) \<le> length ?ids" by (rule card_length)
  then have "setSize ?ids \<le> length ?ids" by (simp only: setSize_card)
  then have ids: "setSize ?ids \<le> 2 * length ?cs" by simp
  have card: "setSize ?ids = card ((\<lambda>c. pr_id (rc_primary c)) ` set ?cs
             \<union> (\<lambda>c. pr_id (rc_conflicting c)) ` set ?cs)"
    by (simp add: setSize_card)
  show ?thesis
    unfolding d c s1 s2 s3 s4 using two bound ids card by blast
qed

text \<open>
  The analysis of \<open>webPolicy\<close>: one duplicate group of two rules and one conflict.
\<close>

theorem analysis_statistics_consistent_witness:
  "ra_duplicates webAnalysis ! 0 \<in> set (ra_duplicates webAnalysis)
   \<and> 2 \<le> length (dg_rules (ra_duplicates webAnalysis ! 0))
   \<and> st_duplicateGroups (ra_statistics webAnalysis) = 1
   \<and> st_duplicateRules (ra_statistics webAnalysis) = 2
   \<and> st_conflicts (ra_statistics webAnalysis) = 1
   \<and> st_conflictingRules (ra_statistics webAnalysis) = 2
   \<and> length (ra_duplicates webAnalysis) = 1
   \<and> length (ra_conflicts webAnalysis) = 1"
proof -
  have len: "length (ra_duplicates webAnalysis) = 1" by code_simp
  have mem: "ra_duplicates webAnalysis ! 0 \<in> set (ra_duplicates webAnalysis)"
    by (rule nth_mem) (simp add: len)
  have stats: "st_duplicateGroups (ra_statistics webAnalysis) = 1
   \<and> st_duplicateRules (ra_statistics webAnalysis) = 2
   \<and> st_conflicts (ra_statistics webAnalysis) = 1
   \<and> st_conflictingRules (ra_statistics webAnalysis) = 2"
    by code_simp
  note consistent = analysis_statistics_consistent[of "processFirewallPolicy webPolicy None",
      folded webAnalysis_def]
  from consistent mem have "2 \<le> length (dg_rules (ra_duplicates webAnalysis ! 0))" by blast
  moreover from consistent stats have "length (ra_conflicts webAnalysis) = 1" by simp
  ultimately show ?thesis using mem len stats by blast
qed

end
